theory Spec2Isabelle
  imports Main "HOL-Library.AList" "HOL-Library.Sublist"
begin

section \<open>Narrative analysis service: a shallow embedding\<close>

text \<open>
  This theory embeds \<^verbatim>\<open>backend/app/services/analysis_service.py\<close> (class
  \<^verbatim>\<open>AnalysisService\<close>) and the request and result models of
  \<^verbatim>\<open>backend/app/models/schemas.py\<close>.

  Conventions of the embedding.
  \<^item> A Python \<^verbatim>\<open>str\<close> is a list of Unicode code points, each an \<^typ>\<open>int\<close>; the
    literals of the source are written \<open>ascii ''...''\<close>.
  \<^item> The Unicode character database that \<^verbatim>\<open>str.lower\<close>, \<^verbatim>\<open>str.title\<close> and the
    class \<^verbatim>\<open>\w\<close> of the \<^verbatim>\<open>re\<close> module consult is not part of the repository. It is
    a parameter \<open>U\<close> of every function that depends on it, and it is consulted only beyond
    ASCII: on ASCII the three operations are defined here. The white space of
    \<^verbatim>\<open>str.isspace\<close>, a short list, is written out.
  \<^item> A Python \<^verbatim>\<open>int\<close> is an \<^typ>\<open>int\<close>; positions in a list and the results of
    \<^verbatim>\<open>str.count\<close> and \<^verbatim>\<open>len\<close> are natural numbers, converted where the source
    computes with them.
  \<^item> A Python \<^verbatim>\<open>float\<close> is a fraction of two integers, and an arithmetic operation
    on floats rounds its exact result to 53 significant bits (round half to even), with an
    unbounded exponent range.
  \<^item> A \<^verbatim>\<open>datetime\<close> is offset-naive or offset-aware and carries an integer, its
    position on the time line of its kind; comparing a naive with an aware one raises
    \<^verbatim>\<open>TypeError\<close>. The clock read by \<^verbatim>\<open>datetime.now()\<close> is an explicit argument.
  \<^item> An exception is a value of type \<open>py_error\<close>; a function that may raise returns
    \<open>py_error + 'a\<close>.
\<close>

subsection \<open>Exceptions\<close>

datatype py_error =
  ValidationError | StatisticsError | ZeroDivisionError | ValueError | KeyError | IndexError
  | TypeError

definition bind_err :: "py_error + 'a \<Rightarrow> ('a \<Rightarrow> py_error + 'b) \<Rightarrow> py_error + 'b" where
  "bind_err r f = (case r of Inl e \<Rightarrow> Inl e | Inr v \<Rightarrow> f v)"

subsection \<open>Characters and strings\<close>

type_synonym py_str = "int list"

text \<open>A literal of the source: the code points of its characters.\<close>

definition ascii :: "string \<Rightarrow> py_str" where
  "ascii s = map of_char s"

definition is_ascii :: "int \<Rightarrow> bool" where
  "is_ascii c = (0 \<le> c \<and> c < 128)"

text \<open>The classes \<^verbatim>\<open>[A-Z]\<close>, \<^verbatim>\<open>[a-z]\<close> and \<^verbatim>\<open>[0-9]\<close>.\<close>

definition is_upper :: "int \<Rightarrow> bool" where
  "is_upper c = (65 \<le> c \<and> c \<le> 90)"

definition is_lower :: "int \<Rightarrow> bool" where
  "is_lower c = (97 \<le> c \<and> c \<le> 122)"

definition is_digit :: "int \<Rightarrow> bool" where
  "is_digit c = (48 \<le> c \<and> c \<le> 57)"

definition is_alpha :: "int \<Rightarrow> bool" where
  "is_alpha c = (is_upper c \<or> is_lower c)"

text \<open>The part of the Unicode character database that the analysis consults beyond ASCII:
  whether a code point is alphanumeric (\<^verbatim>\<open>str.isalnum\<close>), and the results of
  \<^verbatim>\<open>str.lower()\<close> and \<^verbatim>\<open>str.title()\<close> on a string that has a character beyond
  ASCII. Both depend on the whole string: a lower-cased character may become several, and
  the lower case of a capital sigma depends on its neighbours.\<close>

record unicode_db =
  wide_isalnum :: "int \<Rightarrow> bool"
  wide_lower :: "py_str \<Rightarrow> py_str"
  wide_title :: "py_str \<Rightarrow> py_str"

text \<open>A database that knows nothing beyond ASCII, for examples whose texts are ASCII: there
  no database is consulted.\<close>

definition ascii_db :: unicode_db where
  "ascii_db = \<lparr>wide_isalnum = (\<lambda>c. False), wide_lower = (\<lambda>s. s), wide_title = (\<lambda>s. s)\<rparr>"

text \<open>The class \<^verbatim>\<open>\w\<close> of the \<^verbatim>\<open>re\<close> module on a \<^verbatim>\<open>str\<close> pattern: the alphanumeric
  characters and the underscore.\<close>

definition is_word :: "unicode_db \<Rightarrow> int \<Rightarrow> bool" where
  "is_word U c =
     (if is_ascii c then is_alpha c \<or> is_digit c \<or> c = 95 else wide_isalnum U c)"

text \<open>\<^verbatim>\<open>str.isspace\<close>: in ASCII the tab, line feed, vertical tab, form feed, carriage
  return, the four separators \<^verbatim>\<open>\x1c\<close> to \<^verbatim>\<open>\x1f\<close> and the space; beyond ASCII
  U+0085, U+00A0, U+1680, U+2000 to U+200A, U+2028, U+2029, U+202F, U+205F and U+3000.\<close>

definition is_space :: "int \<Rightarrow> bool" where
  "is_space c =
     ((9 \<le> c \<and> c \<le> 13) \<or> (28 \<le> c \<and> c \<le> 32) \<or> c = 133 \<or> c = 160 \<or> c = 5760
      \<or> (8192 \<le> c \<and> c \<le> 8202) \<or> c = 8232 \<or> c = 8233 \<or> c = 8239 \<or> c = 8287
      \<or> c = 12288)"

definition lower_char :: "int \<Rightarrow> int" where
  "lower_char c = (if is_upper c then c + 32 else c)"

definition upper_char :: "int \<Rightarrow> int" where
  "upper_char c = (if is_lower c then c - 32 else c)"

text \<open>\<^verbatim>\<open>str.lower()\<close>\<close>

definition lower :: "unicode_db \<Rightarrow> py_str \<Rightarrow> py_str" where
  "lower U s = (if list_all is_ascii s then map lower_char s else wide_lower U s)"

text \<open>\<^verbatim>\<open>str.title()\<close>: in an ASCII string a letter is upper-cased when the character
  before it is not a letter and lower-cased otherwise.\<close>

fun title_from :: "bool \<Rightarrow> py_str \<Rightarrow> py_str" where
  "title_from prev_cased [] = []"
| "title_from prev_cased (c # cs) =
     (if is_alpha c
      then (if prev_cased then lower_char c else upper_char c) # title_from True cs
      else c # title_from False cs)"

definition title_case :: "unicode_db \<Rightarrow> py_str \<Rightarrow> py_str" where
  "title_case U s = (if list_all is_ascii s then title_from False s else wide_title U s)"

text \<open>\<^verbatim>\<open>str.strip()\<close>\<close>

definition strip :: "py_str \<Rightarrow> py_str" where
  "strip s = rev (dropWhile is_space (rev (dropWhile is_space s)))"

text \<open>\<^verbatim>\<open>str.split()\<close> without arguments: the maximal runs of characters that are not
  white space.\<close>

function split_ws :: "py_str \<Rightarrow> py_str list" where
  "split_ws s =
     (let t = dropWhile is_space s
      in if t = [] then []
         else takeWhile (\<lambda>c. \<not> is_space c) t # split_ws (dropWhile (\<lambda>c. \<not> is_space c) t))"
  by pat_completeness auto
termination
proof (relation "measure length", goal_cases)
  case 1
  show ?case by simp
next
  case (2 s t)
  then obtain c cs where t: "t = c # cs" and c: "\<not> is_space c"
    by (metis hd_dropWhile list.exhaust_sel)
  have "length (dropWhile (\<lambda>c. \<not> is_space c) t) \<le> length cs"
    using t c by (simp add: length_dropWhile_le)
  moreover have "length t \<le> length s"
    using 2 by (simp add: length_dropWhile_le)
  ultimately show ?case using t by simp
qed

declare split_ws.simps [simp del]

text \<open>\<^verbatim>\<open>sub in text\<close>\<close>

fun contains :: "py_str \<Rightarrow> py_str \<Rightarrow> bool" where
  "contains [] sub = (sub = [])"
| "contains (c # cs) sub = (prefix sub (c # cs) \<or> contains cs sub)"

text \<open>\<^verbatim>\<open>text.count(sub)\<close>: the number of non-overlapping occurrences, scanning from the
  left; the empty pattern occurs \<^verbatim>\<open>len(text) + 1\<close> times.\<close>

function str_count :: "py_str \<Rightarrow> py_str \<Rightarrow> nat" where
  "str_count [] sub = (if sub = [] then 1 else 0)"
| "str_count (c # cs) sub =
     (if sub = [] then Suc (str_count cs sub)
      else if prefix sub (c # cs) then Suc (str_count (drop (length sub) (c # cs)) sub)
      else str_count cs sub)"
  by pat_completeness auto
termination
  by (relation "measure (\<lambda>(t, sub). length t)") (auto simp: neq_Nil_conv)

text \<open>\<^verbatim>\<open>re.sub(r'<[^>]+>', '', s)\<close>: at a \<^verbatim>\<open><\<close> (code point 60), the class \<^verbatim>\<open>[^>]+\<close>
  takes the longest run of characters other than \<^verbatim>\<open>>\<close> (code point 62); the match
  succeeds when that run is not empty and a \<^verbatim>\<open>>\<close> follows it, and the scan goes on
  behind that \<^verbatim>\<open>>\<close>.\<close>

function strip_tags :: "py_str \<Rightarrow> py_str" where
  "strip_tags [] = []"
| "strip_tags (c # cs) =
     (if c = 60
         \<and> takeWhile (\<lambda>x. x \<noteq> 62) cs \<noteq> []
         \<and> dropWhile (\<lambda>x. x \<noteq> 62) cs \<noteq> []
      then strip_tags (tl (dropWhile (\<lambda>x. x \<noteq> 62) cs))
      else c # strip_tags cs)"
  by pat_completeness auto
termination
proof (relation "measure length", goal_cases)
  case 1
  show ?case by simp
next
  case (2 c cs)
  have "length (dropWhile (\<lambda>x. x \<noteq> 62) cs) \<le> length cs"
    by (rule length_dropWhile_le)
  then have "length (tl (dropWhile (\<lambda>x. x \<noteq> 62) cs)) \<le> length cs"
    by simp
  then show ?case by simp
next
  case (3 c cs)
  show ?case by simp
qed

text \<open>\<^verbatim>\<open>re.split(r'[.!?]+', text)\<close>: the pieces between the maximal runs of terminators
  (code points 46, 33 and 63), the empty pieces at both ends included.\<close>

definition is_terminator :: "int \<Rightarrow> bool" where
  "is_terminator c = (c = 46 \<or> c = 33 \<or> c = 63)"

function split_sentences :: "py_str \<Rightarrow> py_str list" where
  "split_sentences s =
     (let rest = dropWhile (\<lambda>c. \<not> is_terminator c) s
      in if rest = [] then [takeWhile (\<lambda>c. \<not> is_terminator c) s]
         else takeWhile (\<lambda>c. \<not> is_terminator c) s # split_sentences (dropWhile is_terminator rest))"
  by pat_completeness auto
termination
proof (relation "measure length", goal_cases)
  case 1
  show ?case by simp
next
  case (2 s rest)
  then obtain c cs where r: "rest = c # cs" and c: "is_terminator c"
    by (metis hd_dropWhile list.exhaust_sel)
  have "length (dropWhile is_terminator rest) \<le> length cs"
    using r c by (simp add: length_dropWhile_le)
  moreover have "length rest \<le> length s"
    using 2 by (simp add: length_dropWhile_le)
  ultimately show ?case using r by simp
qed

declare split_sentences.simps [simp del]

text \<open>\<^verbatim>\<open>re.findall(r'\b[A-Z][a-z]+\b', text)\<close>. The flag says whether the character before
  the current position is a word character. A match starts at an upper-case letter behind a
  word boundary, takes the longest run of lower-case letters, which must not be empty, and
  needs a word boundary behind that run; a shorter run ends before a lower-case letter, where
  there is no boundary. The scan goes on behind the match.\<close>

function find_names :: "unicode_db \<Rightarrow> bool \<Rightarrow> py_str \<Rightarrow> py_str list" where
  "find_names U prev_word [] = []"
| "find_names U prev_word (c # cs) =
     (if \<not> prev_word \<and> is_upper c \<and> takeWhile is_lower cs \<noteq> []
         \<and> (dropWhile is_lower cs = [] \<or> \<not> is_word U (hd (dropWhile is_lower cs)))
      then (c # takeWhile is_lower cs) # find_names U True (dropWhile is_lower cs)
      else find_names U (is_word U c) cs)"
  by pat_completeness auto
termination
  by (relation "measure (\<lambda>(U, p, s). length s)") (auto simp: length_dropWhile_le less_Suc_eq_le)

declare find_names.simps [simp del]

text \<open>The decimal digits of a natural number, and \<^verbatim>\<open>str(i)\<close> for an int, as the
  f-strings of the source format it; 45 is the minus sign.\<close>

function str_nat :: "nat \<Rightarrow> py_str" where
  "str_nat n = (if n < 10 then [48 + int n] else str_nat (n div 10) @ [48 + int (n mod 10)])"
  by pat_completeness auto
termination
  by (relation "measure id") auto

declare str_nat.simps [simp del]

definition str_int :: "int \<Rightarrow> py_str" where
  "str_int i = (if i < 0 then 45 # str_nat (nat (- i)) else str_nat (nat i))"

text \<open>\<^verbatim>\<open>' '.join(parts)\<close>\<close>

definition join_space :: "py_str list \<Rightarrow> py_str" where
  "join_space parts = (case parts of [] \<Rightarrow> [] | p # ps \<Rightarrow> fold (\<lambda>q acc. acc @ [32] @ q) ps p)"

subsection \<open>Numbers\<close>

text \<open>A finite float is a fraction: a numerator and a positive denominator. An int that
  Python returns where a float may come is the fraction over 1.\<close>

type_synonym py_float = "int \<times> int"

text \<open>\<^verbatim>\<open>int.bit_length()\<close> of an int that is not negative.\<close>

function bit_length :: "int \<Rightarrow> nat" where
  "bit_length n = (if n \<le> 0 then 0 else Suc (bit_length (n div 2)))"
  by pat_completeness auto
termination
  by (relation "measure nat") auto

declare bit_length.simps [simp del]

text \<open>The quotient \<open>a / b\<close>, for a positive \<open>b\<close>, rounded to the nearest integer, a tie
  to the even one.\<close>

definition div_half_even :: "int \<Rightarrow> int \<Rightarrow> int" where
  "div_half_even a b =
     (let q = a div b; r = a mod b
      in if 2 * r < b then q else if b < 2 * r then q + 1 else if even q then q else q + 1)"

text \<open>The exponent \<open>e\<close> with \<open>2 ^ e \<le> p / d < 2 ^ (e + 1)\<close>, for positive \<open>p\<close> and \<open>d\<close>.\<close>

definition binary_exponent :: "int \<Rightarrow> int \<Rightarrow> int" where
  "binary_exponent p d =
     (let e0 = int (bit_length p) - int (bit_length d)
      in if (if 0 \<le> e0 then d * 2 ^ nat e0 \<le> p else d \<le> p * 2 ^ nat (- e0))
         then e0 else e0 - 1)"

text \<open>The float nearest to \<open>p / d\<close>, for a positive \<open>d\<close>: the magnitude is rounded to 53
  significant bits, half to even.\<close>

definition round_float :: "int \<Rightarrow> int \<Rightarrow> py_float" where
  "round_float p d =
     (if p = 0 then (0, 1)
      else let k = binary_exponent \<bar>p\<bar> d - 52
           in if 0 \<le> k then (sgn p * (div_half_even \<bar>p\<bar> (d * 2 ^ nat k) * 2 ^ nat k), 1)
              else (sgn p * div_half_even (\<bar>p\<bar> * 2 ^ nat (- k)) d, 2 ^ nat (- k)))"

text \<open>\<^verbatim>\<open>a / b\<close> on ints: the correctly rounded quotient.\<close>

definition py_truediv :: "int \<Rightarrow> int \<Rightarrow> py_error + py_float" where
  "py_truediv a b =
     (if b = 0 then Inl ZeroDivisionError else Inr (round_float (a * sgn b) \<bar>b\<bar>))"

text \<open>\<^verbatim>\<open>x * c\<close> for a float \<open>x\<close> and an int \<open>c\<close> of at most 53 bits.\<close>

definition float_mul :: "py_float \<Rightarrow> int \<Rightarrow> py_float" where
  "float_mul x c = round_float (fst x * c) (snd x)"

text \<open>\<^verbatim>\<open>int(x)\<close>: truncation towards zero.\<close>

definition py_int :: "py_float \<Rightarrow> int" where
  "py_int x = sgn (fst x) * (\<bar>fst x\<bar> div snd x)"

text \<open>\<^verbatim>\<open>statistics.mean\<close> on ints: the exact quotient as an int when the sum is a multiple of
  the length, else the float nearest to it.\<close>

definition statistics_mean :: "int list \<Rightarrow> py_error + py_float" where
  "statistics_mean data =
     (if data = [] then Inl StatisticsError
      else if sum_list data mod int (length data) = 0
      then Inr (sum_list data div int (length data), 1)
      else Inr (round_float (sum_list data) (int (length data))))"

text \<open>\<^verbatim>\<open>max(xs)\<close> and \<^verbatim>\<open>xs.index(v)\<close> on lists.\<close>

definition py_max :: "int list \<Rightarrow> py_error + int" where
  "py_max xs = (case xs of [] \<Rightarrow> Inl ValueError | y # ys \<Rightarrow> Inr (fold max ys y))"

fun py_index :: "int list \<Rightarrow> int \<Rightarrow> py_error + nat" where
  "py_index [] v = Inl ValueError"
| "py_index (x # xs) v = (if x = v then Inr 0 else bind_err (py_index xs v) (\<lambda>i. Inr (Suc i)))"

text \<open>\<^verbatim>\<open>xs[i]\<close> at a position that is not negative.\<close>

definition list_get :: "'a list \<Rightarrow> nat \<Rightarrow> py_error + 'a" where
  "list_get xs i = (if i < length xs then Inr (xs ! i) else Inl IndexError)"

text \<open>\<^verbatim>\<open>max(d, key=d.get)\<close> on a dict, read in insertion order: a later key wins only with a
  strictly larger value.\<close>

fun max_key_from :: "'a \<times> int \<Rightarrow> ('a \<times> int) list \<Rightarrow> 'a" where
  "max_key_from best [] = fst best"
| "max_key_from best (p # ps) =
     (if snd best < snd p then max_key_from p ps else max_key_from best ps)"

definition max_key :: "('a \<times> int) list \<Rightarrow> py_error + 'a" where
  "max_key d = (case d of [] \<Rightarrow> Inl ValueError | p # ps \<Rightarrow> Inr (max_key_from p ps))"

text \<open>\<^verbatim>\<open>d[k]\<close>\<close>

definition dict_get :: "('k \<times> 'v) list \<Rightarrow> 'k \<Rightarrow> py_error + 'v" where
  "dict_get d k = (case map_of d k of None \<Rightarrow> Inl KeyError | Some v \<Rightarrow> Inr v)"

text \<open>A loop whose body may raise: the first error ends it.\<close>

fun map_err :: "('a \<Rightarrow> py_error + 'b) \<Rightarrow> 'a list \<Rightarrow> py_error + 'b list" where
  "map_err f [] = Inr []"
| "map_err f (x # xs) =
     bind_err (f x) (\<lambda>y. bind_err (map_err f xs) (\<lambda>ys. Inr (y # ys)))"

subsection \<open>Request and result models\<close>

text \<open>\<^verbatim>\<open>datetime\<close>: offset-naive or offset-aware, with its position on the time line of
  its kind. Two values of one kind are ordered by their positions; \<^verbatim>\<open><\<close> between a
  naive and an aware value raises \<^verbatim>\<open>TypeError\<close>.\<close>

datatype py_datetime = Naive int | Aware int

fun is_aware :: "py_datetime \<Rightarrow> bool" where
  "is_aware (Naive t) = False"
| "is_aware (Aware t) = True"

fun instant :: "py_datetime \<Rightarrow> int" where
  "instant (Naive t) = t"
| "instant (Aware t) = t"

text \<open>\<^verbatim>\<open>StoryNode\<close>; its fields \<^verbatim>\<open>position\<close>, \<^verbatim>\<open>connections\<close>, \<^verbatim>\<open>updated_at\<close>,
  \<^verbatim>\<open>word_count\<close>, \<^verbatim>\<open>character_count\<close>, \<^verbatim>\<open>tags\<close> and \<^verbatim>\<open>notes\<close> are never read
  by the analysis and are left out. The field \<^verbatim>\<open>id\<close> is \<open>node_id\<close> here.\<close>

datatype NodeStatus = DRAFT | WRITTEN | SUGGESTION

record StoryNode =
  node_id :: py_str
  content :: py_str
  title :: py_str
  status :: NodeStatus
  created_at :: py_datetime

record StoryProject =
  project_id :: py_str
  project_title :: py_str
  genre :: py_str

record AnalysisRequest =
  nodes :: "StoryNode list"
  project_info :: StoryProject

text \<open>The dicts of \<^verbatim>\<open>emotional_points\<close>, \<^verbatim>\<open>character_arcs\<close>, \<^verbatim>\<open>theme_mentions\<close> and
  the values of \<^verbatim>\<open>relationship_matrix\<close> have fixed keys; each is a record, its fields
  prefixed.\<close>

record emotional_point =
  ep_scene :: int
  ep_title :: py_str
  ep_tension :: int
  ep_dominant_emotion :: py_str

record character_arc =
  ca_name :: py_str
  ca_arc_strength :: int
  ca_mentions :: int

record relationship =
  rel_strength :: int
  rel_type :: py_str

record theme_mention =
  tm_scene :: int
  tm_title :: py_str
  tm_mentions :: int

record EmotionalArc =
  tension_score :: int
  peak_moment :: py_str
  emotional_points :: "emotional_point list"

record CharacterDevelopment =
  protagonist_growth :: py_str
  relationship_matrix :: "(py_str \<times> relationship) list"
  character_arcs :: "character_arc list"

record ThemeConsistency =
  core_theme :: py_str
  consistency_score :: int
  theme_mentions :: "theme_mention list"

record PacingAnalysis =
  action_vs_dialogue_ratio :: py_str
  slow_sections :: "py_str list"
  pacing_score :: int

record NarrativeDNA =
  emotional_arc :: EmotionalArc
  character_development :: CharacterDevelopment
  theme_consistency :: ThemeConsistency
  pacing_analysis :: PacingAnalysis
  comparative_insights :: "py_str list"
  analysis_timestamp :: int

text \<open>The constructors of the validated models: \<^verbatim>\<open>Field(..., ge=0, le=100)\<close> raises a
  validation error outside the range.\<close>

definition new_EmotionalArc :: "int \<Rightarrow> py_str \<Rightarrow> emotional_point list \<Rightarrow> py_error + EmotionalArc" where
  "new_EmotionalArc ts pm eps =
     (if 0 \<le> ts \<and> ts \<le> 100
      then Inr \<lparr>tension_score = ts, peak_moment = pm, emotional_points = eps\<rparr>
      else Inl ValidationError)"

definition new_ThemeConsistency :: "py_str \<Rightarrow> int \<Rightarrow> theme_mention list \<Rightarrow> py_error + ThemeConsistency" where
  "new_ThemeConsistency ct cs tms =
     (if 0 \<le> cs \<and> cs \<le> 100
      then Inr \<lparr>core_theme = ct, consistency_score = cs, theme_mentions = tms\<rparr>
      else Inl ValidationError)"

definition new_PacingAnalysis :: "py_str \<Rightarrow> py_str list \<Rightarrow> int \<Rightarrow> py_error + PacingAnalysis" where
  "new_PacingAnalysis r ss ps =
     (if 0 \<le> ps \<and> ps \<le> 100
      then Inr \<lparr>action_vs_dialogue_ratio = r, slow_sections = ss, pacing_score = ps\<rparr>
      else Inl ValidationError)"

subsection \<open>The lexicon of \<^verbatim>\<open>AnalysisService.__init__\<close>\<close>

definition tension_keywords :: "py_str list" where
  "tension_keywords =
     map ascii [''conflict'', ''tension'', ''danger'', ''threat'', ''fear'', ''suspense'',
                ''crisis'']"

definition emotion_keywords :: "(py_str \<times> py_str list) list" where
  "emotion_keywords =
     [(ascii ''tension'', tension_keywords),
      (ascii ''joy'',
       map ascii [''happy'', ''joy'', ''laugh'', ''smile'', ''celebration'', ''triumph'']),
      (ascii ''sadness'',
       map ascii [''sad'', ''cry'', ''tears'', ''grief'', ''loss'', ''mourning'']),
      (ascii ''anger'',
       map ascii [''angry'', ''rage'', ''fury'', ''mad'', ''furious'', ''hostile'']),
      (ascii ''love'',
       map ascii [''love'', ''romance'', ''affection'', ''tender'', ''caring'', ''devotion''])]"

definition action_indicators :: "py_str list" where
  "action_indicators =
     map ascii [''ran'', ''rushed'', ''fought'', ''attacked'', ''chased'', ''battle'',
                ''explosion'']"

definition description_indicators :: "py_str list" where
  "description_indicators =
     map ascii [''looked'', ''appeared'', ''seemed'', ''was'', ''were'', ''beautiful'', ''dark'']"

text \<open>The two quote characters, code points 34 and 39.\<close>

definition double_quote :: py_str where
  "double_quote = [34]"

definition single_quote :: py_str where
  "single_quote = [39]"

definition pacing_indicators :: "(py_str \<times> py_str list) list" where
  "pacing_indicators =
     [(ascii ''action'', action_indicators),
      (ascii ''dialogue'',
       [double_quote, single_quote]
       @ map ascii [''said'', ''asked'', ''replied'', ''whispered'', ''shouted'']),
      (ascii ''description'', description_indicators)]"

text \<open>\<^verbatim>\<open>sum(text.count(keyword) for keyword in keywords)\<close>\<close>

definition count_keywords :: "py_str \<Rightarrow> py_str list \<Rightarrow> int" where
  "count_keywords text keywords = sum_list (map (\<lambda>keyword. int (str_count text keyword)) keywords)"

text \<open>\<^verbatim>\<open>sorted(nodes, key=lambda x: x.created_at)\<close>: a stable sort. A sort of two or more
  elements compares every key with another one until the order of all is settled, so it
  compares a naive with an aware time stamp, and raises, as soon as the list has both kinds;
  a list of at most one element is returned without a comparison. The time stamps can be
  compared when all are of the kind of the first.\<close>

definition timestamps_comparable :: "StoryNode list \<Rightarrow> bool" where
  "timestamps_comparable ns =
     (case ns of
        [] \<Rightarrow> True
      | first # others \<Rightarrow>
          list_all (\<lambda>node. is_aware (created_at node) = is_aware (created_at first)) others)"

definition sorted_nodes :: "StoryNode list \<Rightarrow> py_error + StoryNode list" where
  "sorted_nodes ns =
     (if timestamps_comparable ns then Inr (sort_key (\<lambda>node. instant (created_at node)) ns)
      else Inl TypeError)"

subsection \<open>\<^verbatim>\<open>_extract_story_text\<close>\<close>

definition extract_story_text :: "StoryNode list \<Rightarrow> py_error + py_str" where
  "extract_story_text ns =
     bind_err (sorted_nodes ns) (\<lambda>scenes.
       Inr (join_space
              (map strip (filter (\<lambda>clean_text. strip clean_text \<noteq> [])
                            (map (\<lambda>node. strip_tags (content node)) scenes)))))"

subsection \<open>\<^verbatim>\<open>_analyze_emotional_arc\<close> and \<^verbatim>\<open>_detect_dominant_emotion\<close>\<close>

definition emotion_counts :: "py_str \<Rightarrow> (py_str \<times> int) list" where
  "emotion_counts text =
     map (\<lambda>(emotion, keywords). (emotion, count_keywords text keywords)) emotion_keywords"

definition detect_dominant_emotion :: "py_str \<Rightarrow> py_error + py_str" where
  "detect_dominant_emotion text =
     (if \<not> list_ex (\<lambda>(emotion, n). n \<noteq> 0) (emotion_counts text)
      then Inr (ascii ''neutral'')
      else max_key (emotion_counts text))"

text \<open>The tension score of one scene, from its tag-free, lower-cased text.\<close>

definition scene_tension :: "py_str \<Rightarrow> int" where
  "scene_tension clean_text =
     min 100
       (sum_list (map (\<lambda>keyword. int (str_count clean_text keyword) * 10) tension_keywords)
        + (if list_ex (contains clean_text)
                (map ascii [''climax'', ''confrontation'', ''revelation''])
           then 30 else 0))"

definition clean_lower :: "unicode_db \<Rightarrow> StoryNode \<Rightarrow> py_str" where
  "clean_lower U node = lower U (strip_tags (content node))"

definition emotional_point_of :: "unicode_db \<Rightarrow> nat \<times> StoryNode \<Rightarrow> py_error + emotional_point" where
  "emotional_point_of U p =
     (case p of (i, node) \<Rightarrow>
        bind_err (detect_dominant_emotion (clean_lower U node)) (\<lambda>emotion.
          Inr \<lparr>ep_scene = int i + 1, ep_title = title node,
               ep_tension = scene_tension (clean_lower U node),
               ep_dominant_emotion = emotion\<rparr>))"

definition analyze_emotional_arc ::
  "unicode_db \<Rightarrow> StoryNode list \<Rightarrow> py_str \<Rightarrow> py_error + EmotionalArc" where
  "analyze_emotional_arc U ns full_text =
     bind_err (sorted_nodes ns) (\<lambda>scenes.
     bind_err (map_err (emotional_point_of U) (enumerate 0 scenes)) (\<lambda>points.
       let tension_scores = map (\<lambda>node. scene_tension (clean_lower U node)) scenes
       in if tension_scores \<noteq> []
          then bind_err (py_max tension_scores) (\<lambda>m.
               bind_err (py_index tension_scores m) (\<lambda>max_tension_idx.
               bind_err (sorted_nodes ns) (\<lambda>scenes_again.
               bind_err (list_get scenes_again max_tension_idx) (\<lambda>peak_scene.
               bind_err (statistics_mean tension_scores) (\<lambda>mean.
                 new_EmotionalArc (py_int mean) (title peak_scene) points)))))
          else new_EmotionalArc 0 (ascii ''No peak identified'') points))"

subsection \<open>\<^verbatim>\<open>_analyze_character_development\<close> and its helpers\<close>

text \<open>\<^verbatim>\<open>Counter(words)\<close>: the keys in the order of their first occurrence.\<close>

definition counter :: "py_str list \<Rightarrow> (py_str \<times> int) list" where
  "counter words = fold (\<lambda>w c. AList.map_default w 1 (\<lambda>n. n + 1) c) words []"

definition common_words :: "py_str list" where
  "common_words =
     map ascii [''The'', ''And'', ''But'', ''When'', ''Where'', ''What'', ''How'', ''Why'',
                ''This'', ''That'']"

definition extract_character_names :: "unicode_db \<Rightarrow> py_str \<Rightarrow> py_str list" where
  "extract_character_names U text =
     (let words = find_names U False text;
          name_counts = counter words;
          potential_names =
            map fst (filter (\<lambda>(name, n). 3 \<le> n \<and> name \<notin> set common_words
                                          \<and> 2 < length name) name_counts)
      in take 10 potential_names)"

definition development_indicators :: "py_str list" where
  "development_indicators =
     map ascii [''learned'', ''realized'', ''understood'', ''changed'', ''grew'', ''developed'',
                ''discovered'', ''found'', ''became'', ''transformed'']"

definition count_protagonist_development :: "unicode_db \<Rightarrow> py_str \<Rightarrow> int" where
  "count_protagonist_development U text = count_keywords (lower U text) development_indicators"

text \<open>The number of sentences in which both names occur, case-insensitively.\<close>

definition co_occurrence :: "unicode_db \<Rightarrow> py_str \<Rightarrow> py_str \<Rightarrow> py_str \<Rightarrow> int" where
  "co_occurrence U text char1 char2 =
     int (length (filter (\<lambda>sentence. contains (lower U sentence) (lower U char1)
                               \<and> contains (lower U sentence) (lower U char2))
               (split_sentences text)))"

text \<open>The pairs that the two nested loops visit, in their order:
  \<^verbatim>\<open>for i, char1 in enumerate(characters[:5]): for char2 in characters[i+1:6]\<close>.\<close>

definition character_pairs :: "py_str list \<Rightarrow> (py_str \<times> py_str) list" where
  "character_pairs characters =
     concat (map (\<lambda>(i, char1). map (\<lambda>char2. (char1, char2)) (drop (i + 1) (take 6 characters)))
               (enumerate 0 (take 5 characters)))"

text \<open>\<^verbatim>\<open>f"{char1}-{char2}"\<close>; 45 is the hyphen.\<close>

definition relationship_key :: "py_str \<Rightarrow> py_str \<Rightarrow> py_str" where
  "relationship_key char1 char2 = char1 @ [45] @ char2"

definition build_relationship_matrix ::
  "unicode_db \<Rightarrow> py_str list \<Rightarrow> py_str \<Rightarrow> (py_str \<times> relationship) list" where
  "build_relationship_matrix U characters text =
     (if length characters < 2 then []
      else fold (\<lambda>(char1, char2) relationships.
                   if 0 < co_occurrence U text char1 char2
                   then AList.update (relationship_key char1 char2)
                          \<lparr>rel_strength = min 10 (co_occurrence U text char1 char2),
                           rel_type = ascii ''connected''\<rparr> relationships
                   else relationships)
             (character_pairs characters) [])"

definition development_words :: "py_str list" where
  "development_words =
     map ascii [''changed'', ''learned'', ''grew'', ''realized'', ''became'', ''transformed'']"

definition analyze_character_arc :: "unicode_db \<Rightarrow> py_str \<Rightarrow> py_str \<Rightarrow> int" where
  "analyze_character_arc U character text =
     min 10 (int (length (filter (\<lambda>sentence. contains (lower U sentence) (lower U character)
                                      \<and> list_ex (contains (lower U sentence)) development_words)
                       (split_sentences text))))"

definition analyze_character_development ::
  "unicode_db \<Rightarrow> StoryNode list \<Rightarrow> py_str \<Rightarrow> CharacterDevelopment" where
  "analyze_character_development U ns full_text =
     (let characters = extract_character_names U full_text;
          protagonist_mentions = count_protagonist_development U full_text;
          growth_percentage = min 100 (max 0 (protagonist_mentions * 5))
      in \<lparr>protagonist_growth = str_int growth_percentage @ ascii ''% completed'',
          relationship_matrix = build_relationship_matrix U characters full_text,
          character_arcs =
            map (\<lambda>char. \<lparr>ca_name = char,
                         ca_arc_strength = analyze_character_arc U char full_text,
                         ca_mentions = int (str_count (lower U full_text) (lower U char))\<rparr>)
              (take 5 characters)\<rparr>)"

subsection \<open>\<^verbatim>\<open>_analyze_theme_consistency\<close>\<close>

definition theme_keywords :: "(py_str \<times> py_str list) list" where
  "theme_keywords =
     [(ascii ''love'',
       map ascii [''love'', ''romance'', ''relationship'', ''heart'', ''affection'']),
      (ascii ''betrayal'', map ascii [''betray'', ''deceive'', ''lie'', ''cheat'', ''backstab'']),
      (ascii ''redemption'',
       map ascii [''redeem'', ''forgive'', ''second chance'', ''make amends'']),
      (ascii ''power'', map ascii [''power'', ''control'', ''authority'', ''dominance'', ''rule'']),
      (ascii ''identity'',
       map ascii [''identity'', ''self'', ''who am i'', ''belong'', ''purpose'']),
      (ascii ''freedom'',
       map ascii [''freedom'', ''liberty'', ''escape'', ''independence'', ''free'']),
      (ascii ''justice'', map ascii [''justice'', ''fair'', ''right'', ''wrong'', ''moral''])]"

definition theme_scores :: "unicode_db \<Rightarrow> py_str \<Rightarrow> (py_str \<times> int) list" where
  "theme_scores U full_text =
     map (\<lambda>(theme, keywords). (theme, count_keywords (lower U full_text) keywords))
       theme_keywords"

text \<open>\<^verbatim>\<open>theme_scores and max(theme_scores.values()) > 0\<close>\<close>

definition has_core_theme :: "(py_str \<times> int) list \<Rightarrow> py_error + bool" where
  "has_core_theme scores =
     (if scores = [] then Inr False
      else bind_err (py_max (map snd scores)) (\<lambda>m. Inr (0 < m)))"

text \<open>\<^verbatim>\<open>min(100, int((theme_strength / max(1, total_words)) * 1000))\<close>\<close>

definition consistency_of :: "int \<Rightarrow> int \<Rightarrow> py_error + int" where
  "consistency_of theme_strength total_words =
     bind_err (py_truediv theme_strength (max 1 total_words)) (\<lambda>q.
       Inr (min 100 (py_int (float_mul q 1000))))"

text \<open>The core theme, as the source names it before title-casing, and the consistency
  score.\<close>

definition dominant_theme :: "unicode_db \<Rightarrow> py_str \<Rightarrow> py_error + (py_str \<times> int)" where
  "dominant_theme U full_text =
     bind_err (has_core_theme (theme_scores U full_text)) (\<lambda>found.
       if found
       then bind_err (max_key (theme_scores U full_text)) (\<lambda>core_theme.
            bind_err (dict_get (theme_scores U full_text) core_theme) (\<lambda>theme_strength.
            bind_err (consistency_of theme_strength (int (length (split_ws full_text))))
              (\<lambda>score. Inr (core_theme, score))))
       else Inr (ascii ''No clear theme'', 0))"

definition theme_mentions_of ::
  "unicode_db \<Rightarrow> py_str \<Rightarrow> StoryNode list \<Rightarrow> py_error + theme_mention list" where
  "theme_mentions_of U core ns =
     (if core \<noteq> ascii ''No clear theme''
      then bind_err (sorted_nodes ns) (\<lambda>scenes.
           bind_err
             (map_err (\<lambda>(i, node).
                  bind_err (dict_get theme_keywords core) (\<lambda>keywords.
                    Inr \<lparr>tm_scene = int i + 1, tm_title = title node,
                         tm_mentions = count_keywords (clean_lower U node) keywords\<rparr>))
                (enumerate 0 scenes))
             (\<lambda>all_mentions. Inr (filter (\<lambda>m. 0 < tm_mentions m) all_mentions)))
      else Inr [])"

definition analyze_theme_consistency ::
  "unicode_db \<Rightarrow> StoryNode list \<Rightarrow> py_str \<Rightarrow> py_error + ThemeConsistency" where
  "analyze_theme_consistency U ns full_text =
     bind_err (dominant_theme U full_text) (\<lambda>(core, score).
     bind_err (theme_mentions_of U core ns) (\<lambda>mentions.
       new_ThemeConsistency (title_case U core) score mentions))"

text \<open>The formula of the specification for the consistency score,
  \<^verbatim>\<open>clamp(round(themeScore[core] / max(1, totalWordCount) * 1000), 0, 100)\<close>, in exact
  arithmetic, \<^verbatim>\<open>round\<close> being the nearest integer.\<close>

definition spec_consistency_score :: "int \<Rightarrow> int \<Rightarrow> int" where
  "spec_consistency_score theme_score total_word_count =
     max 0 (min 100 (div_half_even (theme_score * 1000) (max 1 total_word_count)))"

subsection \<open>\<^verbatim>\<open>_analyze_pacing\<close>\<close>

text \<open>\<^verbatim>\<open>int((n / total_indicators) * 100)\<close>\<close>

definition ratio_of :: "int \<Rightarrow> int \<Rightarrow> py_error + int" where
  "ratio_of n total_indicators =
     bind_err (py_truediv n total_indicators) (\<lambda>q. Inr (py_int (float_mul q 100)))"

text \<open>The ratio string; 47 is the slash of the f-string.\<close>

definition ratio_string :: "int \<Rightarrow> int \<Rightarrow> int \<Rightarrow> py_error + py_str" where
  "ratio_string action_count dialogue_count description_count =
     (let total_indicators = action_count + dialogue_count + description_count
      in if 0 < total_indicators
         then bind_err (ratio_of action_count total_indicators) (\<lambda>action_ratio.
              bind_err (ratio_of dialogue_count total_indicators) (\<lambda>dialogue_ratio.
                Inr (str_int (action_ratio + dialogue_ratio) @ [47]
                     @ str_int (100 - action_ratio - dialogue_ratio))))
         else Inr (ascii ''50/50''))"

definition slow_sections_of :: "unicode_db \<Rightarrow> StoryNode list \<Rightarrow> py_error + py_str list" where
  "slow_sections_of U ns =
     bind_err (sorted_nodes ns) (\<lambda>scenes.
       Inr (map (\<lambda>(i, node). ascii ''Scene '' @ str_int (int i + 1) @ ascii '': '' @ title node)
              (filter (\<lambda>(i, node). 100 < length (split_ws (clean_lower U node))
                                   \<and> count_keywords (clean_lower U node) action_indicators = 0)
                 (enumerate 0 scenes))))"

definition pacing_score_of :: "int \<Rightarrow> int \<Rightarrow> int" where
  "pacing_score_of action_count dialogue_count =
     min 100 (max 10 (action_count * 2 + dialogue_count div 2))"

definition action_count_of :: "unicode_db \<Rightarrow> py_str \<Rightarrow> int" where
  "action_count_of U full_text = count_keywords (lower U full_text) action_indicators"

definition dialogue_count_of :: "py_str \<Rightarrow> int" where
  "dialogue_count_of full_text =
     int (str_count full_text double_quote) + int (str_count full_text single_quote)"

definition description_count_of :: "unicode_db \<Rightarrow> py_str \<Rightarrow> int" where
  "description_count_of U full_text = count_keywords (lower U full_text) description_indicators"

definition analyze_pacing ::
  "unicode_db \<Rightarrow> StoryNode list \<Rightarrow> py_str \<Rightarrow> py_error + PacingAnalysis" where
  "analyze_pacing U ns full_text =
     bind_err (ratio_string (action_count_of U full_text) (dialogue_count_of full_text)
                 (description_count_of U full_text)) (\<lambda>ratio.
     bind_err (slow_sections_of U ns) (\<lambda>slow.
       new_PacingAnalysis ratio slow
         (pacing_score_of (action_count_of U full_text) (dialogue_count_of full_text))))"

subsection \<open>\<^verbatim>\<open>_generate_comparative_insights\<close>\<close>

definition insight_mystery :: py_str where
  "insight_mystery = ascii ''Your structure resembles Agatha Christie'' @ single_quote
     @ ascii ''s mysteries with multiple scenes building tension''"

definition insight_ensemble :: py_str where
  "insight_ensemble = ascii ''Character dynamics similar to ensemble narratives like ''
     @ single_quote @ ascii ''Game of Thrones'' @ single_quote"

definition insight_romance :: py_str where
  "insight_romance = ascii ''Romance with conflict elements reminiscent of Jane Austen''
     @ single_quote @ ascii ''s style''"

definition insight_fallback :: py_str where
  "insight_fallback = ascii ''Unique narrative structure - forge your own path!''"

text \<open>The three rules, in the order of their \<^verbatim>\<open>if\<close> statements: whether each matches, and
  the insight it appends.\<close>

definition insight_rules :: "unicode_db \<Rightarrow> StoryNode list \<Rightarrow> py_str \<Rightarrow> (bool \<times> py_str) list" where
  "insight_rules U ns full_text =
     (let word_count = int (length (split_ws full_text));
          scene_count = int (length ns)
      in [(10 \<le> scene_count \<and> contains (lower U full_text) (ascii ''mystery''),
           insight_mystery),
          (5000 < word_count \<and> contains (lower U full_text) (ascii ''character''),
           insight_ensemble),
          (contains (lower U full_text) (ascii ''love'')
             \<and> contains (lower U full_text) (ascii ''conflict''),
           insight_romance)])"

definition generate_comparative_insights ::
  "unicode_db \<Rightarrow> StoryNode list \<Rightarrow> py_str \<Rightarrow> py_str list" where
  "generate_comparative_insights U ns full_text =
     (let insights = map snd (filter fst (insight_rules U ns full_text))
      in if length insights = 0 then insights @ [insight_fallback] else insights)"

subsection \<open>\<^verbatim>\<open>analyze_story\<close>\<close>

text \<open>The second argument is the instant that \<^verbatim>\<open>datetime.now()\<close> returns when the result
  is assembled. The handler of the source logs an exception and raises it again.\<close>

definition analyze_story :: "unicode_db \<Rightarrow> int \<Rightarrow> AnalysisRequest \<Rightarrow> py_error + NarrativeDNA" where
  "analyze_story U now request =
     bind_err (extract_story_text (nodes request)) (\<lambda>full_text.
     bind_err (analyze_emotional_arc U (nodes request) full_text) (\<lambda>arc.
       let character_dev = analyze_character_development U (nodes request) full_text
       in bind_err (analyze_theme_consistency U (nodes request) full_text) (\<lambda>theme.
          bind_err (analyze_pacing U (nodes request) full_text) (\<lambda>pacing.
            Inr \<lparr>emotional_arc = arc,
                 character_development = character_dev,
                 theme_consistency = theme,
                 pacing_analysis = pacing,
                 comparative_insights =
                   generate_comparative_insights U (nodes request) full_text,
                 analysis_timestamp = now\<rparr>))))"

section \<open>Properties\<close>

subsection \<open>Texts in ASCII\<close>

text \<open>On a text in ASCII the character database is not consulted: lower-casing,
  title-casing and the search for names give the same result with every database. The
  examples below are in ASCII and are stated with the database \<open>ascii_db\<close>.\<close>

lemma lower_ascii: "list_all is_ascii s \<Longrightarrow> lower U s = map lower_char s"
  by (simp add: lower_def)

lemma title_case_ascii: "list_all is_ascii s \<Longrightarrow> title_case U s = title_from False s"
  by (simp add: title_case_def)

lemma is_word_ascii: "is_ascii c \<Longrightarrow> is_word U c = (is_alpha c \<or> is_digit c \<or> c = 95)"
  by (simp add: is_word_def)

lemma find_names_ascii:
  "list_all is_ascii s \<Longrightarrow> find_names U prev s = find_names ascii_db prev s"
proof (induction "length s" arbitrary: s prev rule: less_induct)
  case less
  show ?case
  proof (cases s)
    case Nil
    then show ?thesis by (simp add: find_names.simps)
  next
    case (Cons c cs)
    with less.prems have c: "is_ascii c" and cs: "list_all is_ascii cs" by simp_all
    have d: "list_all is_ascii (dropWhile is_lower cs)"
      using cs by (auto simp: list_all_iff dest: set_dropWhileD)
    have h: "dropWhile is_lower cs \<noteq> [] \<Longrightarrow>
        is_word U (hd (dropWhile is_lower cs)) = is_word ascii_db (hd (dropWhile is_lower cs))"
      using d by (cases "dropWhile is_lower cs") (simp_all add: is_word_ascii)
    have l: "length (dropWhile is_lower cs) < length s"
      using Cons by (simp add: length_dropWhile_le less_Suc_eq_le)
    have a: "find_names U True (dropWhile is_lower cs)
        = find_names ascii_db True (dropWhile is_lower cs)"
      using less.hyps[OF l d] .
    have b: "find_names U p cs = find_names ascii_db p cs" for p
      using less.hyps[of cs p] cs Cons by simp
    have w: "is_word U c = is_word ascii_db c"
      using c by (simp add: is_word_ascii)
    show ?thesis
      unfolding Cons find_names.simps(2)[of _ _ c cs] using h a b w by auto
  qed
qed

subsection \<open>The analysis of a story without scenes\<close>

lemma analyze_story_Nil:
  "analyze_story U now \<lparr>nodes = [], project_info = P\<rparr> =
     Inr \<lparr>emotional_arc =
            \<lparr>tension_score = 0, peak_moment = ascii ''No peak identified'', emotional_points = []\<rparr>,
          character_development =
            \<lparr>protagonist_growth = ascii ''0% completed'', relationship_matrix = [],
             character_arcs = []\<rparr>,
          theme_consistency =
            \<lparr>core_theme = ascii ''No Clear Theme'', consistency_score = 0, theme_mentions = []\<rparr>,
          pacing_analysis =
            \<lparr>action_vs_dialogue_ratio = ascii ''50/50'', slow_sections = [], pacing_score = 10\<rparr>,
          comparative_insights = [ascii ''Unique narrative structure - forge your own path!''],
          analysis_timestamp = now\<rparr>"
  by code_simp

text \<open>
  Claim C2, as the source has it. With zero scenes the analysis returns a profile whose peak
  moment is "No peak identified", whose overall tension score is 0, whose consistency score
  is 0, whose action/dialogue ratio is "50/50" and whose comparative insights are the single
  fallback insight. The core theme is reported through \<^verbatim>\<open>str.title()\<close> like every
  other theme, so it reads "No Clear Theme".
\<close>

theorem empty_input_profile:
  "\<exists>p. analyze_story U now \<lparr>nodes = [], project_info = P\<rparr> = Inr p
     \<and> peak_moment (emotional_arc p) = ascii ''No peak identified''
     \<and> tension_score (emotional_arc p) = 0
     \<and> core_theme (theme_consistency p) = ascii ''No Clear Theme''
     \<and> consistency_score (theme_consistency p) = 0
     \<and> action_vs_dialogue_ratio (pacing_analysis p) = ascii ''50/50''
     \<and> comparative_insights p = [ascii ''Unique narrative structure - forge your own path!'']"
  by (simp add: analyze_story_Nil)

text \<open>
  Claim C2, as stated, asks for the core theme "No clear theme" on zero scenes. The profile
  returned for zero scenes does not have it.
\<close>

theorem empty_input_core_theme_counterexample:
  "map_sum id (core_theme \<circ> theme_consistency)
     (analyze_story ascii_db 0 \<lparr>nodes = [],
        project_info = \<lparr>project_id = ascii ''p1'', project_title = ascii ''Draft'', genre = ascii ''novel''\<rparr>\<rparr>)
   \<noteq> Inr (ascii ''No clear theme'')"
  by (simp add: analyze_story_Nil ascii_def)

subsection \<open>Determinism\<close>

text \<open>
  Claim C1, as the source has it. Two calls on the same scene sequence return the same
  profile in every field but \<^verbatim>\<open>analysis_timestamp\<close>, which is the instant at which each
  call reads the clock; the project metadata has no influence at all. The result of the
  second call is the result of the first with the time stamp replaced.
\<close>

theorem analyze_story_deterministic_up_to_timestamp:
  "analyze_story U t2 \<lparr>nodes = S, project_info = P2\<rparr> =
     map_sum id (\<lambda>p. p\<lparr>analysis_timestamp := t2\<rparr>)
       (analyze_story U t1 \<lparr>nodes = S, project_info = P1\<rparr>)"
  by (simp add: analyze_story_def bind_err_def Let_def split: sum.splits)

text \<open>
  Claim C1, as stated, asks for equality in every field of the profile. Two calls on the same
  request at different instants return different profiles.
\<close>

theorem analyze_story_timestamp_counterexample:
  "analyze_story ascii_db 0 \<lparr>nodes = [],
      project_info = \<lparr>project_id = ascii ''p1'', project_title = ascii ''Draft'', genre = ascii ''novel''\<rparr>\<rparr>
   \<noteq> analyze_story ascii_db 1 \<lparr>nodes = [],
      project_info = \<lparr>project_id = ascii ''p1'', project_title = ascii ''Draft'', genre = ascii ''novel''\<rparr>\<rparr>"
  by (simp add: analyze_story_Nil)

subsection \<open>Keywords are matched as substrings\<close>

lemma str_count_embedded: "0 < str_count (u @ c # sub @ v) (c # sub)"
  by (induction u) auto

text \<open>
  Claim C9. Keyword scoring counts substring occurrences, with no regard to word boundaries:
  a keyword that is not empty is counted at least once in every text that has it anywhere,
  whatever stands before and behind it. So "she made tea", none of whose words is an emotion
  keyword, has the anger count 1 (from "mad" in "made") and the dominant emotion anger, not
  neutral; "he washed it", none of whose words is a description indicator, has the
  description count 1 (from "was" in "washed"); and "we believe you", none of whose words is
  a theme keyword, has the core theme betrayal (from "lie" in "believe").
\<close>

theorem substring_keyword_matching:
  "(\<forall>u v c sub. 0 < str_count (u @ c # sub @ v) (c # sub))
   \<and> set (split_ws (ascii ''she made tea'')) \<inter> set (concat (map snd emotion_keywords)) = {}
   \<and> map_of (emotion_counts (ascii ''she made tea'')) (ascii ''anger'') = Some 1
   \<and> detect_dominant_emotion (ascii ''she made tea'') = Inr (ascii ''anger'')
   \<and> set (split_ws (ascii ''he washed it'')) \<inter> set description_indicators = {}
   \<and> description_count_of U (ascii ''he washed it'') = 1
   \<and> set (split_ws (ascii ''we believe you'')) \<inter> set (concat (map snd theme_keywords)) = {}
   \<and> dominant_theme U (ascii ''we believe you'') = Inr (ascii ''betrayal'', 100)"
proof -
  have a: "\<forall>u v c sub. 0 < str_count (u @ c # sub @ v) (c # sub)"
    using str_count_embedded by blast
  have b: "set (split_ws (ascii ''she made tea'')) \<inter> set (concat (map snd emotion_keywords)) = {}"
    by code_simp
  have c: "map_of (emotion_counts (ascii ''she made tea'')) (ascii ''anger'') = Some 1"
    by code_simp
  have d: "detect_dominant_emotion (ascii ''she made tea'') = Inr (ascii ''anger'')"
    by code_simp
  have e: "set (split_ws (ascii ''he washed it'')) \<inter> set description_indicators = {}"
    by code_simp
  have f: "description_count_of U (ascii ''he washed it'') = 1"
    by code_simp
  have g: "set (split_ws (ascii ''we believe you'')) \<inter> set (concat (map snd theme_keywords)) = {}"
    by code_simp
  have h: "dominant_theme U (ascii ''we believe you'') = Inr (ascii ''betrayal'', 100)"
    by code_simp
  from a b c d e f g h show ?thesis by blast
qed

subsection \<open>Sentences span scene boundaries\<close>


subsection \<open>Rounding to a float\<close>

lemma bit_length_bounds:
  "0 < n \<Longrightarrow> 2 ^ bit_length n \<le> 2 * n \<and> n < 2 ^ bit_length n"
proof (induction n rule: bit_length.induct)
  case (1 n)
  show ?case
  proof (cases "n div 2 \<le> 0")
    case True
    with 1(2) have "n = 1" by linarith
    then show ?thesis by (simp add: bit_length.simps)
  next
    case False
    then have pos: "0 < n div 2" by simp
    from 1(2) have bl: "bit_length n = Suc (bit_length (n div 2))"
      by (subst bit_length.simps) simp
    from 1(1) 1(2) pos
    have ih: "2 ^ bit_length (n div 2) \<le> 2 * (n div 2) \<and> n div 2 < 2 ^ bit_length (n div 2)"
      by simp
    have "2 * (n div 2) \<le> n" by simp
    moreover have "n \<le> 2 * (n div 2) + 1" by presburger
    ultimately show ?thesis using ih bl by auto
  qed
qed

lemma div_half_even_nonneg: "0 \<le> a \<Longrightarrow> 0 < b \<Longrightarrow> 0 \<le> div_half_even a b"
  by (auto simp: div_half_even_def Let_def pos_imp_zdiv_nonneg_iff)

lemma div_half_even_le:
  assumes "0 < b" "a \<le> N * b"
  shows "div_half_even a b \<le> N"
proof -
  have q: "a div b \<le> N"
    using assms by (metis zdiv_mono1 nonzero_mult_div_cancel_right less_irrefl)
  show ?thesis
  proof (cases "a div b = N")
    case True
    have "a = b * (a div b) + a mod b" by simp
    then have "a mod b = a - N * b" using True by (simp add: algebra_simps)
    moreover have "0 \<le> a mod b" using assms(1) by simp
    ultimately have "a mod b = 0" using assms(2) by linarith
    then show ?thesis using True assms(1) by (simp add: div_half_even_def Let_def)
  next
    case False
    with q have "a div b + 1 \<le> N" by simp
    then show ?thesis by (auto simp: div_half_even_def Let_def)
  qed
qed

lemma binary_exponent_lower:
  assumes "0 < p" "0 < d" "0 \<le> binary_exponent p d"
  shows "d * 2 ^ nat (binary_exponent p d) \<le> p"
proof -
  define a where "a = bit_length p"
  define b where "b = bit_length d"
  define e0 where "e0 = int a - int b"
  have pa: "2 ^ a \<le> 2 * p" and db: "d < 2 ^ b"
    using bit_length_bounds[OF assms(1)] bit_length_bounds[OF assms(2)] by (simp_all add: a_def b_def)
  have be: "binary_exponent p d =
      (if (if 0 \<le> e0 then d * 2 ^ nat e0 \<le> p else d \<le> p * 2 ^ nat (- e0)) then e0 else e0 - 1)"
    unfolding binary_exponent_def Let_def e0_def a_def b_def by (rule refl)
  show ?thesis
  proof (cases "if 0 \<le> e0 then d * 2 ^ nat e0 \<le> p else d \<le> p * 2 ^ nat (- e0)")
    case True
    then have e: "binary_exponent p d = e0"
      using be by presburger
    with assms(3) True show ?thesis by simp
  next
    case False
    then have e: "binary_exponent p d = e0 - 1"
      using be by presburger
    with assms(3) have e1: "1 \<le> e0" by simp
    then have ab: "a = b + nat (e0 - 1) + 1" unfolding e0_def by linarith
    have "d * 2 ^ nat (e0 - 1) \<le> 2 ^ b * 2 ^ nat (e0 - 1)"
      using db by (simp add: mult_right_mono)
    also have "2 * \<dots> = (2::int) ^ a" by (simp add: ab power_add)
    finally have "2 * (d * 2 ^ nat (e0 - 1)) \<le> 2 * p" using pa by linarith
    then show ?thesis using e by simp
  qed
qed

lemma round_float_mean_bounds:
  assumes "0 \<le> p" "0 < d" "p \<le> 100 * d"
  shows "0 \<le> py_int (round_float p d) \<and> py_int (round_float p d) \<le> 100"
proof (cases "p = 0")
  case True
  then show ?thesis by (simp add: round_float_def py_int_def)
next
  case False
  with assms(1) have pos: "0 < p" by simp
  define e where "e = binary_exponent p d"
  have "e < 7"
  proof (rule ccontr)
    assume "\<not> e < 7"
    then have e7: "7 \<le> e" by simp
    then have "d * 2 ^ nat e \<le> p"
      using binary_exponent_lower[OF pos assms(2)] by (simp add: e_def)
    moreover have "(128::int) \<le> 2 ^ nat e"
      using power_increasing[of 7 "nat e" "2::int"] e7 by simp
    then have "d * 128 \<le> d * 2 ^ nat e"
      using assms(2) by (intro mult_left_mono) auto
    ultimately show False using assms(2,3) by linarith
  qed
  then have k: "\<not> 0 \<le> e - 52" by simp
  define K :: int where "K = 2 ^ nat (- (e - 52))"
  have Kpos: "0 < K" by (simp add: K_def)
  define m where "m = div_half_even (p * K) d"
  have rf: "round_float p d = (m, K)"
    using pos k by (simp add: round_float_def Let_def e_def[symmetric] K_def m_def)
  have m0: "0 \<le> m"
    unfolding m_def using pos Kpos assms(2) by (intro div_half_even_nonneg) auto
  have "p * K \<le> (100 * K) * d" using assms(3) Kpos by (simp add: mult_right_mono)
  then have m100: "m \<le> 100 * K"
    unfolding m_def using assms(2) by (intro div_half_even_le) auto
  have "m div K \<le> 100"
    using m100 Kpos by (metis zdiv_mono1 nonzero_mult_div_cancel_right less_irrefl)
  moreover have "0 \<le> m div K" using m0 Kpos by (simp add: pos_imp_zdiv_nonneg_iff)
  moreover have "py_int (m, K) = m div K"
    using m0 by (cases "m = 0") (auto simp: py_int_def)
  ultimately show ?thesis by (simp add: rf)
qed

subsection \<open>Exceptions and loops\<close>

lemma bind_err_simps [simp]:
  "bind_err (Inr v) f = f v"
  "bind_err (Inl e) f = Inl e"
  by (simp_all add: bind_err_def)

lemma map_err_total:
  assumes "\<And>x. x \<in> set xs \<Longrightarrow> f x = Inr (g x)"
  shows "map_err f xs = Inr (map g xs)"
  using assms by (induction xs) simp_all

lemma max_key_from_first_max:
  "\<exists>xs y ys. b # ps = xs @ y # ys \<and> max_key_from b ps = fst y
     \<and> (\<forall>x\<in>set xs. snd x < snd y) \<and> (\<forall>z\<in>set ys. snd z \<le> snd y)"
proof (induction ps arbitrary: b)
  case Nil
  have "[b] = [] @ b # []" by simp
  moreover have "max_key_from b [] = fst b" by simp
  ultimately show ?case by (metis empty_iff empty_set)
next
  case (Cons p ps)
  show ?case
  proof (cases "snd b < snd p")
    case True
    from Cons[of p] obtain xs y ys where s: "p # ps = xs @ y # ys"
      and r: "max_key_from p ps = fst y"
      and lt: "\<forall>x\<in>set xs. snd x < snd y" and le: "\<forall>z\<in>set ys. snd z \<le> snd y"
      by blast
    have "snd p \<le> snd y"
    proof (cases xs)
      case Nil
      with s show ?thesis by simp
    next
      case (Cons x xs')
      with s lt show ?thesis by auto
    qed
    with True have b_lt: "snd b < snd y" by simp
    have "b # p # ps = (b # xs) @ y # ys" using s by simp
    moreover have "max_key_from b (p # ps) = fst y" using True r by simp
    moreover have "\<forall>x\<in>set (b # xs). snd x < snd y" using lt b_lt by simp
    ultimately show ?thesis using le by blast
  next
    case False
    from Cons[of b] obtain xs y ys where s: "b # ps = xs @ y # ys"
      and r: "max_key_from b ps = fst y"
      and lt: "\<forall>x\<in>set xs. snd x < snd y" and le: "\<forall>z\<in>set ys. snd z \<le> snd y"
      by blast
    have m: "max_key_from b (p # ps) = fst y" using False r by simp
    show ?thesis
    proof (cases xs)
      case Nil
      with s have yb: "y = b" and ys: "ys = ps" by simp_all
      have "b # p # ps = [] @ y # (p # ys)" using yb ys by simp
      moreover have "\<forall>z\<in>set (p # ys). snd z \<le> snd y" using le False yb by auto
      ultimately show ?thesis using m by (metis empty_iff empty_set)
    next
      case (Cons x xs')
      with s have xb: "x = b" and ps: "ps = xs' @ y # ys" by simp_all
      have "snd b < snd y" using lt Cons xb by simp
      with False have "snd p < snd y" by simp
      then have "\<forall>x\<in>set (b # p # xs'). snd x < snd y" using lt Cons xb by simp
      moreover have "b # p # ps = (b # p # xs') @ y # ys" using ps by simp
      ultimately show ?thesis using m le by blast
    qed
  qed
qed

subsection \<open>The dominant emotion\<close>

lemma emotion_counts_keys:
  "map fst (emotion_counts text) = [ascii ''tension'', ascii ''joy'', ascii ''sadness'', ascii ''anger'', ascii ''love'']"
  by (simp add: emotion_counts_def emotion_keywords_def)

lemma emotion_counts_not_Nil: "emotion_counts text \<noteq> []"
  by (simp add: emotion_counts_def emotion_keywords_def)

text \<open>
  Claim C5. The emotion counts of a text list the five categories in their declaration order
  (tension, joy, sadness, anger, love), each with the total number of occurrences of its
  keywords. If all five counts are zero the dominant emotion is neutral. Otherwise it is the
  category of an entry with the maximal count all of whose predecessors in the declaration
  order have a strictly smaller count: the earliest category with the maximal count.
\<close>

theorem dominant_emotion_selection:
  "map fst (emotion_counts text) = [ascii ''tension'', ascii ''joy'', ascii ''sadness'', ascii ''anger'', ascii ''love'']
   \<and> map snd (emotion_counts text)
       = map (\<lambda>keywords. \<Sum>keyword\<leftarrow>keywords. int (str_count text keyword))
           (map snd emotion_keywords)
   \<and> ((\<forall>p\<in>set (emotion_counts text). snd p = 0)
        \<longrightarrow> detect_dominant_emotion text = Inr (ascii ''neutral''))
   \<and> ((\<exists>p\<in>set (emotion_counts text). snd p \<noteq> 0)
        \<longrightarrow> (\<exists>before winner after.
               emotion_counts text = before @ winner # after
               \<and> detect_dominant_emotion text = Inr (fst winner)
               \<and> (\<forall>p\<in>set before. snd p < snd winner)
               \<and> (\<forall>p\<in>set after. snd p \<le> snd winner)))"
proof (intro conjI impI)
  show "map fst (emotion_counts text) = [ascii ''tension'', ascii ''joy'', ascii ''sadness'', ascii ''anger'', ascii ''love'']"
    by (rule emotion_counts_keys)
  show "map snd (emotion_counts text)
       = map (\<lambda>keywords. \<Sum>keyword\<leftarrow>keywords. int (str_count text keyword))
           (map snd emotion_keywords)"
    by (simp add: emotion_counts_def count_keywords_def split_def)
  show "detect_dominant_emotion text = Inr (ascii ''neutral'')"
    if "\<forall>p\<in>set (emotion_counts text). snd p = 0"
    using that by (auto simp: detect_dominant_emotion_def list_ex_iff)
  show "\<exists>before winner after.
               emotion_counts text = before @ winner # after
               \<and> detect_dominant_emotion text = Inr (fst winner)
               \<and> (\<forall>p\<in>set before. snd p < snd winner)
               \<and> (\<forall>p\<in>set after. snd p \<le> snd winner)"
    if nz: "\<exists>p\<in>set (emotion_counts text). snd p \<noteq> 0"
  proof -
    obtain b ps where c: "emotion_counts text = b # ps"
      using emotion_counts_not_Nil by (cases "emotion_counts text") auto
    have d: "detect_dominant_emotion text = Inr (max_key_from b ps)"
      using nz c by (auto simp: detect_dominant_emotion_def list_ex_iff max_key_def split_def)
    from max_key_from_first_max[of b ps] show ?thesis
      unfolding c[symmetric] d by blast
  qed
qed

theorem dominant_emotion_selection_witness:
  "emotion_counts (ascii ''happy but sad'')
       = [(ascii ''tension'', 0), (ascii ''joy'', 1), (ascii ''sadness'', 1), (ascii ''anger'', 0), (ascii ''love'', 0)]
   \<and> detect_dominant_emotion (ascii ''happy but sad'') = Inr (ascii ''joy'')
   \<and> emotion_counts (ascii ''a quiet walk'')
       = [(ascii ''tension'', 0), (ascii ''joy'', 0), (ascii ''sadness'', 0), (ascii ''anger'', 0), (ascii ''love'', 0)]
   \<and> detect_dominant_emotion (ascii ''a quiet walk'') = Inr (ascii ''neutral'')"
proof -
  have c: "emotion_counts (ascii ''happy but sad'')
       = [(ascii ''tension'', 0), (ascii ''joy'', 1), (ascii ''sadness'', 1), (ascii ''anger'', 0), (ascii ''love'', 0)]"
    by code_simp
  then have nz: "\<exists>p\<in>set (emotion_counts (ascii ''happy but sad'')). snd p \<noteq> 0"
    by simp
  with dominant_emotion_selection[of "(ascii ''happy but sad'')"]
  obtain before winner after where
    s: "emotion_counts (ascii ''happy but sad'') = before @ winner # after"
    and r: "detect_dominant_emotion (ascii ''happy but sad'') = Inr (fst winner)"
    and lt: "\<forall>p\<in>set before. snd p < snd winner"
    and le: "\<forall>p\<in>set after. snd p \<le> snd winner"
    by blast
  from s lt le have "fst winner = ascii ''joy''"
    unfolding c by (auto simp: append_eq_Cons_conv Cons_eq_append_conv)
  with r have j: "detect_dominant_emotion (ascii ''happy but sad'') = Inr (ascii ''joy'')" by simp
  have q: "emotion_counts (ascii ''a quiet walk'')
       = [(ascii ''tension'', 0), (ascii ''joy'', 0), (ascii ''sadness'', 0), (ascii ''anger'', 0), (ascii ''love'', 0)]"
    by code_simp
  then have z: "\<forall>p\<in>set (emotion_counts (ascii ''a quiet walk'')). snd p = 0"
    by simp
  with dominant_emotion_selection[of "(ascii ''a quiet walk'')"]
  have "detect_dominant_emotion (ascii ''a quiet walk'') = Inr (ascii ''neutral'')" by blast
  with c j q show ?thesis by blast
qed

subsection \<open>The emotional arc returns\<close>

lemma detect_dominant_emotion_total:
  "detect_dominant_emotion text = Inr (projr (detect_dominant_emotion text))"
proof -
  obtain b ps where c: "emotion_counts text = b # ps"
    using emotion_counts_not_Nil by (cases "emotion_counts text") auto
  show ?thesis by (simp add: detect_dominant_emotion_def max_key_def c)
qed

lemma scene_tension_range: "0 \<le> scene_tension t \<and> scene_tension t \<le> 100"
proof -
  have "0 \<le> sum_list (map (\<lambda>keyword. int (str_count t keyword) * 10) tension_keywords)"
    by (intro sum_list_nonneg) auto
  then show ?thesis by (simp add: scene_tension_def)
qed

lemma sum_list_range:
  "\<forall>x\<in>set xs. 0 \<le> x \<and> x \<le> (100::int) \<Longrightarrow> 0 \<le> sum_list xs \<and> sum_list xs \<le> 100 * int (length xs)"
  by (induction xs) auto

lemma py_int_over_one: "py_int (q, 1) = q"
proof -
  have "sgn q * \<bar>q\<bar> = q" by (simp add: sgn_if abs_if)
  then show ?thesis by (simp add: py_int_def)
qed

lemma statistics_mean_range:
  assumes "data \<noteq> []" "\<forall>x\<in>set data. 0 \<le> x \<and> x \<le> 100"
  shows "\<exists>m. statistics_mean data = Inr m \<and> 0 \<le> py_int m \<and> py_int m \<le> 100"
proof -
  define s where "s = sum_list data"
  define n where "n = int (length data)"
  have n: "0 < n" using assms(1) by (simp add: n_def)
  have s: "0 \<le> s" "s \<le> 100 * n" using sum_list_range[OF assms(2)] by (simp_all add: s_def n_def)
  show ?thesis
  proof (cases "s mod n = 0")
    case True
    then have "statistics_mean data = Inr (s div n, 1)"
      using assms(1) by (simp add: statistics_mean_def s_def n_def)
    moreover have "0 \<le> s div n" using s n by (simp add: pos_imp_zdiv_nonneg_iff)
    moreover have "s div n \<le> 100"
      using s n by (metis zdiv_mono1 nonzero_mult_div_cancel_right less_irrefl)
    ultimately show ?thesis by (simp add: py_int_over_one)
  next
    case False
    then have "statistics_mean data = Inr (round_float s n)"
      using assms(1) by (simp add: statistics_mean_def s_def n_def)
    then show ?thesis using round_float_mean_bounds[OF s(1) n s(2)] by simp
  qed
qed

lemma py_max_in_set:
  "xs \<noteq> [] \<Longrightarrow> \<exists>m. py_max xs = Inr m \<and> m \<in> set xs \<and> (\<forall>x\<in>set xs. x \<le> m)"
proof (cases xs)
  case Nil
  then show "xs \<noteq> [] \<Longrightarrow> ?thesis" by simp
next
  case (Cons y ys)
  have "fold max ys y = Max (set (y # ys))" by (rule Max.set_eq_fold[symmetric])
  then have "py_max xs = Inr (Max (set xs))" using Cons by (simp add: py_max_def)
  moreover have "Max (set xs) \<in> set xs" using Cons by (intro Max_in) auto
  moreover have "\<forall>x\<in>set xs. x \<le> Max (set xs)" by simp
  ultimately show ?thesis by blast
qed

lemma py_index_first:
  "v \<in> set xs \<Longrightarrow> \<exists>i. py_index xs v = Inr i \<and> i < length xs \<and> xs ! i = v \<and> (\<forall>j<i. xs ! j \<noteq> v)"
proof (induction xs)
  case Nil
  then show ?case by simp
next
  case (Cons x xs)
  show ?case
  proof (cases "x = v")
    case True
    then show ?thesis by simp
  next
    case False
    with Cons obtain i where i: "py_index xs v = Inr i" "i < length xs" "xs ! i = v"
      "\<forall>j<i. xs ! j \<noteq> v" by auto
    have "\<forall>j<Suc i. (x # xs) ! j \<noteq> v"
      using False i(4) by (auto simp: less_Suc_eq_0_disj)
    with False i show ?thesis by simp
  qed
qed
text \<open>Sorting returns exactly when the time stamps can be compared.\<close>

lemma sorted_nodes_Inr:
  "timestamps_comparable ns \<Longrightarrow>
   sorted_nodes ns = Inr (sort_key (\<lambda>node. instant (created_at node)) ns)"
  by (simp add: sorted_nodes_def)

lemma sorted_nodes_TypeError:
  "\<not> timestamps_comparable ns \<Longrightarrow> sorted_nodes ns = Inl TypeError"
  by (simp add: sorted_nodes_def)

lemma sorted_nodes_InrD:
  assumes "sorted_nodes ns = Inr scenes"
  shows "timestamps_comparable ns" "length scenes = length ns"
  using assms by (auto simp: sorted_nodes_def split: if_splits)

text \<open>The emotional point of a scene, where the detection of the dominant emotion returns.\<close>

lemma emotional_point_of_total:
  "emotional_point_of U (i, node) =
     Inr \<lparr>ep_scene = int i + 1, ep_title = title node,
          ep_tension = scene_tension (clean_lower U node),
          ep_dominant_emotion = projr (detect_dominant_emotion (clean_lower U node))\<rparr>"
  by (subst emotional_point_of_def, subst detect_dominant_emotion_total) simp

lemma analyze_emotional_arc_TypeError:
  "\<not> timestamps_comparable ns \<Longrightarrow> analyze_emotional_arc U ns full_text = Inl TypeError"
  by (simp add: analyze_emotional_arc_def sorted_nodes_TypeError)

lemma analyze_emotional_arc_total:
  assumes s: "sorted_nodes ns = Inr scenes"
  shows "\<exists>arc. analyze_emotional_arc U ns full_text = Inr arc
     \<and> 0 \<le> tension_score arc \<and> tension_score arc \<le> 100
     \<and> emotional_points arc =
         map (\<lambda>(i, node). \<lparr>ep_scene = int i + 1, ep_title = title node,
                ep_tension = scene_tension (clean_lower U node),
                ep_dominant_emotion = projr (detect_dominant_emotion (clean_lower U node))\<rparr>)
           (enumerate 0 scenes)"
proof -
  define g where "g = (\<lambda>(i, node). \<lparr>ep_scene = int i + 1, ep_title = title node,
                ep_tension = scene_tension (clean_lower U node),
                ep_dominant_emotion = projr (detect_dominant_emotion (clean_lower U node))\<rparr>)"
  define scores where "scores = map (\<lambda>node. scene_tension (clean_lower U node)) scenes"
  have pts: "map_err (emotional_point_of U) (enumerate 0 scenes)
      = Inr (map g (enumerate 0 scenes))"
    by (rule map_err_total) (auto simp: g_def emotional_point_of_total)
  show ?thesis
  proof (cases "scores = []")
    case True
    then show ?thesis
      unfolding analyze_emotional_arc_def s bind_err_simps pts g_def[symmetric]
        scores_def[symmetric]
      by (simp add: new_EmotionalArc_def)
  next
    case False
    have rng: "\<forall>x\<in>set scores. 0 \<le> x \<and> x \<le> 100"
      by (auto simp: scores_def scene_tension_range)
    from py_max_in_set[OF False] obtain m where m: "py_max scores = Inr m" "m \<in> set scores"
      by blast
    from py_index_first[OF m(2)] obtain i where i: "py_index scores m = Inr i" "i < length scores"
      by blast
    have len: "length scores = length scenes" by (simp add: scores_def)
    then have g: "list_get scenes i = Inr (scenes ! i)"
      using i(2) by (simp add: list_get_def)
    from statistics_mean_range[OF False rng] obtain mean where
      mean: "statistics_mean scores = Inr mean" "0 \<le> py_int mean" "py_int mean \<le> 100"
      by blast
    show ?thesis
      unfolding analyze_emotional_arc_def s bind_err_simps pts g_def[symmetric]
        scores_def[symmetric]
      using False m(1) i(1) g mean by (simp add: new_EmotionalArc_def)
  qed
qed

subsection \<open>The tension score of a scene\<close>

text \<open>
  Claim C4. Take any story whose time stamps can be compared, so that its scenes can be put
  in chronological order, and any of its scenes, at position \<open>i\<close> of that order. If the
  tag-free, lower-cased text of the scene has "danger" exactly twice, has "revelation", has
  none of the other tension keywords (conflict, tension, threat, fear, suspense, crisis) and
  has neither "climax" nor "confrontation", then the emotional arc returns, and its point
  number \<open>i + 1\<close> carries the tension score 10 * 2 + 30 = 50.
\<close>

theorem tension_scoring_scenario:
  assumes "sorted_nodes ns = Inr scenes"
    and "i < length scenes"
    and "str_count (clean_lower U (scenes ! i)) (ascii ''danger'') = 2"
    and "contains (clean_lower U (scenes ! i)) (ascii ''revelation'')"
    and "\<forall>keyword\<in>set (map ascii [''conflict'', ''tension'', ''threat'', ''fear'', ''suspense'',
                                   ''crisis'']).
           str_count (clean_lower U (scenes ! i)) keyword = 0"
    and "\<not> contains (clean_lower U (scenes ! i)) (ascii ''climax'')"
    and "\<not> contains (clean_lower U (scenes ! i)) (ascii ''confrontation'')"
  shows "\<exists>arc. analyze_emotional_arc U ns full_text = Inr arc
           \<and> i < length (emotional_points arc)
           \<and> ep_scene (emotional_points arc ! i) = int i + 1
           \<and> ep_title (emotional_points arc ! i) = title (scenes ! i)
           \<and> ep_tension (emotional_points arc ! i) = 50"
proof -
  have t: "scene_tension (clean_lower U (scenes ! i)) = 50"
    using assms(3-7) by (simp add: scene_tension_def tension_keywords_def)
  from analyze_emotional_arc_total[OF assms(1), of U full_text] obtain arc where
    a: "analyze_emotional_arc U ns full_text = Inr arc"
    and p: "emotional_points arc =
         map (\<lambda>(i, node). \<lparr>ep_scene = int i + 1, ep_title = title node,
                ep_tension = scene_tension (clean_lower U node),
                ep_dominant_emotion = projr (detect_dominant_emotion (clean_lower U node))\<rparr>)
           (enumerate 0 scenes)"
    by blast
  show ?thesis
    using a assms(2) t by (simp add: p nth_enumerate_eq)
qed

theorem tension_scoring_scenario_witness:
  "sorted_nodes [\<lparr>node_id = ascii ''n1'',
        content = ascii ''<p>Danger! More danger: a revelation.</p>'',
        title = ascii ''Cliff'', status = WRITTEN, created_at = Naive 10\<rparr>]
     = Inr [\<lparr>node_id = ascii ''n1'',
        content = ascii ''<p>Danger! More danger: a revelation.</p>'',
        title = ascii ''Cliff'', status = WRITTEN, created_at = Naive 10\<rparr>]
   \<and> clean_lower ascii_db \<lparr>node_id = ascii ''n1'',
        content = ascii ''<p>Danger! More danger: a revelation.</p>'',
        title = ascii ''Cliff'', status = WRITTEN, created_at = Naive 10\<rparr>
      = ascii ''danger! more danger: a revelation.''
   \<and> str_count (ascii ''danger! more danger: a revelation.'') (ascii ''danger'') = 2
   \<and> contains (ascii ''danger! more danger: a revelation.'') (ascii ''revelation'')
   \<and> (\<exists>arc. analyze_emotional_arc ascii_db [\<lparr>node_id = ascii ''n1'',
          content = ascii ''<p>Danger! More danger: a revelation.</p>'',
          title = ascii ''Cliff'', status = WRITTEN, created_at = Naive 10\<rparr>]
          (ascii ''Danger! More danger: a revelation.'') = Inr arc
        \<and> ep_scene (emotional_points arc ! 0) = 1
        \<and> ep_title (emotional_points arc ! 0) = ascii ''Cliff''
        \<and> ep_tension (emotional_points arc ! 0) = 50)"
proof -
  define n where "n = \<lparr>node_id = ascii ''n1'',
        content = ascii ''<p>Danger! More danger: a revelation.</p>'',
        title = ascii ''Cliff'', status = WRITTEN, created_at = Naive 10\<rparr>"
  have s: "sorted_nodes [n] = Inr [n]"
    unfolding n_def by code_simp
  have c: "clean_lower ascii_db n = ascii ''danger! more danger: a revelation.''"
    unfolding n_def by code_simp
  have h1: "str_count (ascii ''danger! more danger: a revelation.'') (ascii ''danger'') = 2"
    by code_simp
  have h2: "contains (ascii ''danger! more danger: a revelation.'') (ascii ''revelation'')"
    by code_simp
  have "list_all (\<lambda>keyword. str_count (ascii ''danger! more danger: a revelation.'') keyword = 0)
      (map ascii [''conflict'', ''tension'', ''threat'', ''fear'', ''suspense'', ''crisis''])"
    by code_simp
  then have h3: "\<forall>keyword\<in>set (map ascii [''conflict'', ''tension'', ''threat'', ''fear'',
                                           ''suspense'', ''crisis'']).
           str_count (ascii ''danger! more danger: a revelation.'') keyword = 0"
    unfolding list_all_iff .
  have h4: "\<not> contains (ascii ''danger! more danger: a revelation.'') (ascii ''climax'')"
    by code_simp
  have h5: "\<not> contains (ascii ''danger! more danger: a revelation.'') (ascii ''confrontation'')"
    by code_simp
  have t: "title n = ascii ''Cliff''"
    by (simp add: n_def)
  have n0: "[n] ! 0 = n" by simp
  have "\<exists>arc. analyze_emotional_arc ascii_db [n] (ascii ''Danger! More danger: a revelation.'')
             = Inr arc
           \<and> 0 < length (emotional_points arc)
           \<and> ep_scene (emotional_points arc ! 0) = int 0 + 1
           \<and> ep_title (emotional_points arc ! 0) = title ([n] ! 0)
           \<and> ep_tension (emotional_points arc ! 0) = 50"
    using tension_scoring_scenario[of "[n]" "[n]" 0 ascii_db, unfolded n0 c, OF s _ h1 h2 h3 h4 h5]
    by simp
  then obtain arc where
    "analyze_emotional_arc ascii_db [n] (ascii ''Danger! More danger: a revelation.'') = Inr arc
        \<and> ep_scene (emotional_points arc ! 0) = 1
        \<and> ep_title (emotional_points arc ! 0) = ascii ''Cliff''
        \<and> ep_tension (emotional_points arc ! 0) = 50"
    using t by auto
  then have e: "\<exists>arc. analyze_emotional_arc ascii_db [n]
          (ascii ''Danger! More danger: a revelation.'') = Inr arc
        \<and> ep_scene (emotional_points arc ! 0) = 1
        \<and> ep_title (emotional_points arc ! 0) = ascii ''Cliff''
        \<and> ep_tension (emotional_points arc ! 0) = 50"
    by (rule exI)
  from s c h1 h2 e show ?thesis unfolding n_def by (intro conjI)
qed

subsection \<open>Comparative insights\<close>

lemma insights_distinct:
  "insight_mystery \<noteq> insight_ensemble" "insight_mystery \<noteq> insight_romance"
  "insight_ensemble \<noteq> insight_romance"
  by (simp_all add: insight_mystery_def insight_ensemble_def insight_romance_def ascii_def)

text \<open>
  Claim C8, as the source has it. The comparative insights are never empty. When none of the
  three rules matches they are the single fallback insight, which the source writes with a
  hyphen: "Unique narrative structure - forge your own path!". When a rule matches they are
  the insights of the matching rules in the order of their declaration: the mystery rule,
  the ensemble rule, the romance rule.
\<close>

theorem comparative_insights_rules:
  "generate_comparative_insights U ns full_text \<noteq> []
   \<and> (\<not> (10 \<le> length ns \<and> contains (lower U full_text) (ascii ''mystery''))
      \<and> \<not> (5000 < length (split_ws full_text)
             \<and> contains (lower U full_text) (ascii ''character''))
      \<and> \<not> (contains (lower U full_text) (ascii ''love'')
             \<and> contains (lower U full_text) (ascii ''conflict''))
      \<longrightarrow> generate_comparative_insights U ns full_text
            = [ascii ''Unique narrative structure - forge your own path!''])
   \<and> ((10 \<le> length ns \<and> contains (lower U full_text) (ascii ''mystery''))
      \<or> (5000 < length (split_ws full_text)
           \<and> contains (lower U full_text) (ascii ''character''))
      \<or> (contains (lower U full_text) (ascii ''love'')
           \<and> contains (lower U full_text) (ascii ''conflict''))
      \<longrightarrow> generate_comparative_insights U ns full_text
            = (if 10 \<le> length ns \<and> contains (lower U full_text) (ascii ''mystery'')
               then [insight_mystery] else [])
            @ (if 5000 < length (split_ws full_text)
                  \<and> contains (lower U full_text) (ascii ''character'')
               then [insight_ensemble] else [])
            @ (if contains (lower U full_text) (ascii ''love'')
                  \<and> contains (lower U full_text) (ascii ''conflict'')
               then [insight_romance] else []))"
  by (auto simp: generate_comparative_insights_def insight_rules_def Let_def insight_fallback_def)

theorem comparative_insights_rules_witness:
  "generate_comparative_insights ascii_db [] (ascii ''a quiet walk'')
       = [ascii ''Unique narrative structure - forge your own path!'']
   \<and> contains (lower ascii_db (ascii ''Love and conflict'')) (ascii ''love'')
   \<and> contains (lower ascii_db (ascii ''Love and conflict'')) (ascii ''conflict'')
   \<and> generate_comparative_insights ascii_db [] (ascii ''Love and conflict'') = [insight_romance]"
proof -
  have a: "\<not> contains (lower ascii_db (ascii ''a quiet walk'')) (ascii ''love'')" by code_simp
  have b: "contains (lower ascii_db (ascii ''Love and conflict'')) (ascii ''love'')" by code_simp
  have c: "contains (lower ascii_db (ascii ''Love and conflict'')) (ascii ''conflict'')" by code_simp
  have d: "\<not> 5000 < length (split_ws (ascii ''a quiet walk''))" by code_simp
  have e: "\<not> 5000 < length (split_ws (ascii ''Love and conflict''))" by code_simp
  from comparative_insights_rules[of ascii_db "[]" "ascii ''a quiet walk''"] a d
  have f: "generate_comparative_insights ascii_db [] (ascii ''a quiet walk'')
       = [ascii ''Unique narrative structure - forge your own path!'']"
    by simp
  from comparative_insights_rules[of ascii_db "[]" "ascii ''Love and conflict''"] b c e
  have g: "generate_comparative_insights ascii_db [] (ascii ''Love and conflict'') = [insight_romance]"
    by simp
  from b c f g show ?thesis by simp
qed

text \<open>
  Claim C8, as stated, names the fallback insight with an em dash (U+2014, code point
  8212) between "structure" and "forge". For a story without scenes no rule matches, and
  the insights are not that string.
\<close>

theorem fallback_insight_em_dash_counterexample:
  "extract_story_text [] = Inr []
   \<and> \<not> list_ex fst (insight_rules ascii_db [] [])
   \<and> generate_comparative_insights ascii_db [] []
     \<noteq> [ascii ''Unique narrative structure '' @ [8212]
         @ ascii '' forge your own path!'']"
  by code_simp

subsection \<open>Candidate names and the pairs of candidates\<close>

lemma upper_not_dash: "is_upper c \<Longrightarrow> c \<noteq> 45"
  by (auto simp: is_upper_def)

lemma lower_not_dash: "is_lower c \<Longrightarrow> c \<noteq> 45"
  by (auto simp: is_lower_def)

lemma find_names_no_dash:
  "w \<in> set (find_names U prev s) \<Longrightarrow> 45 \<notin> set w"
proof (induction U prev s rule: find_names.induct)
  case (1 U prev)
  then show ?case by (simp add: find_names.simps(1))
next
  case (2 U prev c cs)
  define cond where "cond \<longleftrightarrow> \<not> prev \<and> is_upper c \<and> takeWhile is_lower cs \<noteq> []
         \<and> (dropWhile is_lower cs = [] \<or> \<not> is_word U (hd (dropWhile is_lower cs)))"
  have eq: "find_names U prev (c # cs) =
      (if cond then (c # takeWhile is_lower cs) # find_names U True (dropWhile is_lower cs)
       else find_names U (is_word U c) cs)"
    unfolding cond_def by (rule find_names.simps(2))
  show ?case
  proof (cases cond)
    case True
    with eq "2.prems" have "w \<in> set ((c # takeWhile is_lower cs)
        # find_names U True (dropWhile is_lower cs))"
      by simp
    then consider "w = c # takeWhile is_lower cs"
      | "w \<in> set (find_names U True (dropWhile is_lower cs))"
      by (metis set_ConsD)
    then show ?thesis
    proof cases
      case 1
      have "45 \<notin> set (takeWhile is_lower cs)"
      proof
        assume "45 \<in> set (takeWhile is_lower cs)"
        then have "is_lower (45)" by (rule set_takeWhileD[THEN conjunct2])
        then show False by (simp add: is_lower_def)
      qed
      moreover have "c \<noteq> 45"
        using True upper_not_dash unfolding cond_def by blast
      ultimately show ?thesis unfolding 1 by (metis set_ConsD)
    next
      case 2
      from True have "\<not> prev \<and> is_upper c \<and> takeWhile is_lower cs \<noteq> []
         \<and> (dropWhile is_lower cs = [] \<or> \<not> is_word U (hd (dropWhile is_lower cs)))"
        unfolding cond_def .
      from "2.IH"(1)[OF this 2] show ?thesis .
    qed
  next
    case False
    with eq "2.prems" have m: "w \<in> set (find_names U (is_word U c) cs)"
      by simp
    from False have "\<not> (\<not> prev \<and> is_upper c \<and> takeWhile is_lower cs \<noteq> []
         \<and> (dropWhile is_lower cs = [] \<or> \<not> is_word U (hd (dropWhile is_lower cs))))"
      unfolding cond_def .
    from "2.IH"(2)[OF this m] show ?thesis .
  qed
qed

lemma counter_fold_keys:
  "distinct (map fst acc) \<Longrightarrow>
   distinct (map fst (fold (\<lambda>w c. AList.map_default w 1 (\<lambda>n. n + 1) c) ws acc))
   \<and> fst ` set (fold (\<lambda>w c. AList.map_default w 1 (\<lambda>n. n + 1) c) ws acc)
       = set ws \<union> fst ` set acc"
proof (induction ws arbitrary: acc)
  case Nil
  then show ?case by simp
next
  case (Cons w ws)
  have d: "distinct (map fst (AList.map_default w 1 (\<lambda>n. n + 1) acc))"
    using Cons.prems by (rule distinct_map_default)
  show ?case
    using Cons.IH[OF d] by (auto simp: dom_map_default)
qed

lemma counter_keys:
  "distinct (map fst (counter ws))" "fst ` set (counter ws) = set ws"
  using counter_fold_keys[of "[]" ws] unfolding counter_def by auto

lemma extract_character_names_distinct: "distinct (extract_character_names U text)"
  unfolding extract_character_names_def Let_def
  by (intro distinct_take distinct_map_filter counter_keys(1))

lemma extract_character_names_no_dash:
  assumes "w \<in> set (extract_character_names U text)"
  shows "45 \<notin> set w"
proof -
  from assms have "w \<in> fst ` set (counter (find_names U False text))"
    unfolding extract_character_names_def Let_def
    by (auto dest!: in_set_takeD)
  then have "w \<in> set (find_names U False text)" by (simp add: counter_keys(2))
  then show ?thesis by (rule find_names_no_dash)
qed

lemma ascii_hyphen: "ascii ''-'' = [45]"
  by (simp add: ascii_def)

lemma relationship_key_inj:
  assumes "45 \<notin> set a" "45 \<notin> set c"
    and "relationship_key a b = relationship_key c d"
  shows "a = c \<and> b = d"
proof -
  have t: "takeWhile (\<lambda>x. x \<noteq> 45) (u @ 45 # v) = u" if "45 \<notin> set u"
    for u v :: "int list"
    using that by (induction u) auto
  from assms(3) have e: "a @ 45 # b = c @ 45 # d"
    by (simp add: relationship_key_def ascii_hyphen)
  then have "takeWhile (\<lambda>x. x \<noteq> 45) (a @ 45 # b)
      = takeWhile (\<lambda>x. x \<noteq> 45) (c @ 45 # d)" by simp
  then have "a = c" using t assms(1,2) by simp
  with e show ?thesis by simp
qed

lemma character_pairs_iff:
  "(a, b) \<in> set (character_pairs cs) \<longleftrightarrow>
     (\<exists>i j. i < 5 \<and> i < j \<and> j < 6 \<and> j < length cs \<and> a = cs ! i \<and> b = cs ! j)"
proof
  assume "(a, b) \<in> set (character_pairs cs)"
  then obtain i where i: "i < length (take 5 cs)" "a = take 5 cs ! i"
    and b: "b \<in> set (drop (i + 1) (take 6 cs))"
    by (auto simp: character_pairs_def in_set_enumerate_eq)
  from b obtain k where k: "k < length (drop (i + 1) (take 6 cs))"
    "b = drop (i + 1) (take 6 cs) ! k"
    by (auto simp: in_set_conv_nth)
  define j where "j = i + 1 + k"
  have "i < 5" "i < j" "j < 6" "j < length cs" using i(1) k(1) by (auto simp: j_def)
  moreover have "a = cs ! i" using i by simp
  moreover have "b = cs ! j" using k \<open>j < 6\<close> by (simp add: j_def)
  ultimately show "\<exists>i j. i < 5 \<and> i < j \<and> j < 6 \<and> j < length cs \<and> a = cs ! i \<and> b = cs ! j"
    by blast
next
  assume "\<exists>i j. i < 5 \<and> i < j \<and> j < 6 \<and> j < length cs \<and> a = cs ! i \<and> b = cs ! j"
  then obtain i j where ij: "i < 5" "i < j" "j < 6" "j < length cs" "a = cs ! i" "b = cs ! j"
    by blast
  have "(i, a) \<in> set (enumerate 0 (take 5 cs))"
    using ij by (simp add: in_set_enumerate_eq)
  moreover have "b \<in> set (drop (i + 1) (take 6 cs))"
  proof -
    have "j - (i + 1) < length (drop (i + 1) (take 6 cs))" using ij by simp
    moreover have "drop (i + 1) (take 6 cs) ! (j - (i + 1)) = b" using ij by simp
    ultimately show ?thesis by (metis nth_mem)
  qed
  ultimately show "(a, b) \<in> set (character_pairs cs)"
    by (force simp: character_pairs_def)
qed

lemma character_pairs_short:
  assumes "length cs < 2"
  shows "character_pairs cs = []"
proof -
  have "(a, b) \<notin> set (character_pairs cs)" for a b
    using assms unfolding character_pairs_iff by auto
  then have "x \<notin> set (character_pairs cs)" for x
    by (cases x) blast
  then show ?thesis by (meson last_in_set)
qed

subsection \<open>The relationship matrix\<close>

lemma fold_update_sound:
  "map_of (fold (\<lambda>p acc. if cond p then AList.update (key p) (val p) acc else acc) ps acc) k
     = Some v
   \<Longrightarrow> (\<exists>p\<in>set ps. key p = k \<and> cond p \<and> v = val p) \<or> map_of acc k = Some v"
proof (induction ps arbitrary: v rule: rev_induct)
  case Nil
  then show ?case by simp
next
  case (snoc x xs)
  show ?case
  proof (cases "cond x \<and> key x = k")
    case True
    with snoc.prems have "v = val x" by (simp add: update_conv')
    with True show ?thesis by auto
  next
    case False
    with snoc.prems have
      "map_of (fold (\<lambda>p acc. if cond p then AList.update (key p) (val p) acc else acc) xs acc) k
         = Some v"
      by (auto simp: update_conv' split: if_splits)
    from snoc.IH[OF this] show ?thesis by auto
  qed
qed

lemma fold_update_complete:
  assumes "p \<in> set ps" "cond p" "\<forall>q\<in>set ps. key q = key p \<longrightarrow> q = p"
  shows "map_of (fold (\<lambda>p acc. if cond p then AList.update (key p) (val p) acc else acc) ps acc)
           (key p) = Some (val p)"
  using assms
proof (induction ps rule: rev_induct)
  case Nil
  then show ?case by simp
next
  case (snoc x xs)
  show ?case
  proof (cases "key x = key p")
    case True
    with snoc.prems(3) have "x = p" by simp
    with snoc.prems(2) show ?thesis by (simp add: update_conv')
  next
    case False
    with snoc.prems(1) have "p \<in> set xs" by auto
    moreover have "\<forall>q\<in>set xs. key q = key p \<longrightarrow> q = p" using snoc.prems(3) by simp
    ultimately have
      "map_of (fold (\<lambda>p acc. if cond p then AList.update (key p) (val p) acc else acc) xs acc)
         (key p) = Some (val p)"
      using snoc.IH snoc.prems(2) by blast
    with False show ?thesis by (simp add: update_conv')
  qed
qed

lemma fold_update_distinct:
  "distinct (map fst acc) \<Longrightarrow>
   distinct (map fst (fold (\<lambda>p acc. if cond p then AList.update (key p) (val p) acc else acc)
                        ps acc))"
  by (induction ps arbitrary: acc) (simp_all add: distinct_update)

text \<open>The relationship matrix as a fold over the pairs, whatever the number of candidates.\<close>

lemma build_relationship_matrix_fold:
  "build_relationship_matrix U cs text =
     fold (\<lambda>p acc. if 0 < co_occurrence U text (fst p) (snd p)
                    then AList.update (relationship_key (fst p) (snd p))
                           \<lparr>rel_strength = min 10 (co_occurrence U text (fst p) (snd p)),
                            rel_type = ascii ''connected''\<rparr> acc
                    else acc)
       (character_pairs cs) []"
proof (cases "length cs < 2")
  case True
  then show ?thesis by (simp add: build_relationship_matrix_def character_pairs_short)
next
  case False
  then show ?thesis by (simp add: build_relationship_matrix_def split_def)
qed

lemma build_relationship_matrix_distinct:
  "distinct (map fst (build_relationship_matrix U cs text))"
  unfolding build_relationship_matrix_fold by (rule fold_update_distinct) simp

lemma build_relationship_matrix_entry:
  assumes "(k, r) \<in> set (build_relationship_matrix U cs text)"
  shows "\<exists>a b. (a, b) \<in> set (character_pairs cs) \<and> k = relationship_key a b
           \<and> 0 < co_occurrence U text a b
           \<and> r = \<lparr>rel_strength = min 10 (co_occurrence U text a b), rel_type = ascii ''connected''\<rparr>"
proof -
  from assms have "map_of (build_relationship_matrix U cs text) k = Some r"
    using build_relationship_matrix_distinct by simp
  from fold_update_sound[OF this[unfolded build_relationship_matrix_fold]]
  show ?thesis by force
qed

lemma relationship_matrix_of_development:
  "relationship_matrix (analyze_character_development U ns full_text)
     = build_relationship_matrix U (extract_character_names U full_text) full_text"
  by (simp add: analyze_character_development_def Let_def)

text \<open>
  Claim C6. For every story, the relationship matrix of the character development has one
  entry per key, and
  \<^item> every entry belongs to a pair \<open>(candidates[i], candidates[j])\<close> of candidate names with
    \<open>i\<close> in \<open>[0, 5)\<close> and \<open>j\<close> in \<open>(i, 6)\<close>: its key is the two names joined by a hyphen,
    the two names are different (there is no self-pair), the count of the sentences in which
    both occur is positive, the strength is the minimum of 10 and that count, hence in
    \<open>[1, 10]\<close>, and the type is "connected";
  \<^item> for every such pair, the matrix has an entry under its key exactly when that count is
    positive, and then it is the entry just described.
\<close>

theorem relationship_matrix_invariant:
  "distinct (map fst (relationship_matrix (analyze_character_development U ns full_text)))
   \<and> (\<forall>key rel. (key, rel) \<in> set (relationship_matrix (analyze_character_development U ns full_text))
        \<longrightarrow> (\<exists>i j. i < 5 \<and> i < j \<and> j < 6 \<and> j < length (extract_character_names U full_text)
              \<and> key = extract_character_names U full_text ! i @ ascii ''-''
                        @ extract_character_names U full_text ! j
              \<and> extract_character_names U full_text ! i \<noteq> extract_character_names U full_text ! j
              \<and> 0 < co_occurrence U full_text (extract_character_names U full_text ! i)
                      (extract_character_names U full_text ! j)
              \<and> rel_strength rel
                  = min 10 (co_occurrence U full_text (extract_character_names U full_text ! i)
                              (extract_character_names U full_text ! j))
              \<and> 1 \<le> rel_strength rel \<and> rel_strength rel \<le> 10
              \<and> rel_type rel = ascii ''connected''))
   \<and> (\<forall>i j. i < 5 \<and> i < j \<and> j < 6 \<and> j < length (extract_character_names U full_text)
        \<longrightarrow> map_of (relationship_matrix (analyze_character_development U ns full_text))
              (extract_character_names U full_text ! i @ ascii ''-''
                 @ extract_character_names U full_text ! j)
            = (if 0 < co_occurrence U full_text (extract_character_names U full_text ! i)
                       (extract_character_names U full_text ! j)
               then Some \<lparr>rel_strength =
                              min 10 (co_occurrence U full_text
                                        (extract_character_names U full_text ! i)
                                        (extract_character_names U full_text ! j)),
                          rel_type = ascii ''connected''\<rparr>
               else None))"
proof -
  define cs where "cs = extract_character_names U full_text"
  define m where "m = build_relationship_matrix U cs full_text"
  have d: "distinct cs" unfolding cs_def by (rule extract_character_names_distinct)
  have nd: "45 \<notin> set (cs ! i)" if "i < length cs" for i
    using that extract_character_names_no_dash[of "cs ! i" U full_text] by (simp add: cs_def)
  have dm: "distinct (map fst m)" unfolding m_def by (rule build_relationship_matrix_distinct)
  have sound: "\<exists>i j. i < 5 \<and> i < j \<and> j < 6 \<and> j < length cs
              \<and> key = cs ! i @ ascii ''-'' @ cs ! j
              \<and> cs ! i \<noteq> cs ! j
              \<and> 0 < co_occurrence U full_text (cs ! i) (cs ! j)
              \<and> rel_strength rel = min 10 (co_occurrence U full_text (cs ! i) (cs ! j))
              \<and> 1 \<le> rel_strength rel \<and> rel_strength rel \<le> 10
              \<and> rel_type rel = ascii ''connected''"
    if "(key, rel) \<in> set m" for key rel
  proof -
    from build_relationship_matrix_entry[OF that[unfolded m_def]]
    obtain a b where ab: "(a, b) \<in> set (character_pairs cs)" "key = relationship_key a b"
      "0 < co_occurrence U full_text a b"
      "rel = \<lparr>rel_strength = min 10 (co_occurrence U full_text a b), rel_type = ascii ''connected''\<rparr>"
      by blast
    from ab(1) obtain i j where ij: "i < 5" "i < j" "j < 6" "j < length cs"
      "a = cs ! i" "b = cs ! j"
      unfolding character_pairs_iff by blast
    have "cs ! i \<noteq> cs ! j"
      using d ij(2,4) by (simp add: nth_eq_iff_index_eq)
    moreover have "key = cs ! i @ ascii ''-'' @ cs ! j"
      using ab(2) ij(5,6) by (simp add: relationship_key_def ascii_hyphen)
    moreover have "rel_strength rel = min 10 (co_occurrence U full_text (cs ! i) (cs ! j))"
      "rel_type rel = ascii ''connected''"
      using ab(4) ij(5,6) by simp_all
    moreover have "1 \<le> rel_strength rel" "rel_strength rel \<le> 10"
      using ab(3,4) by simp_all
    ultimately show ?thesis using ij ab(3) by blast
  qed
  have complete: "map_of m (cs ! i @ ascii ''-'' @ cs ! j)
            = (if 0 < co_occurrence U full_text (cs ! i) (cs ! j)
               then Some \<lparr>rel_strength = min 10 (co_occurrence U full_text (cs ! i) (cs ! j)),
                          rel_type = ascii ''connected''\<rparr>
               else None)"
    if ij: "i < 5 \<and> i < j \<and> j < 6 \<and> j < length cs" for i j
  proof -
    have mem: "(cs ! i, cs ! j) \<in> set (character_pairs cs)"
      unfolding character_pairs_iff using ij by blast
    have uniq: "q = (cs ! i, cs ! j)"
      if q: "q \<in> set (character_pairs cs)"
        and k: "relationship_key (fst q) (snd q) = relationship_key (cs ! i) (cs ! j)" for q
    proof -
      from q have "(fst q, snd q) \<in> set (character_pairs cs)" by simp
      then obtain i' j' where q0: "i' < j'" "j' < length cs" "fst q = cs ! i'" "snd q = cs ! j'"
        unfolding character_pairs_iff by blast
      then have q': "i' < j'" "j' < length cs" "q = (cs ! i', cs ! j')"
        by (simp_all add: prod_eq_iff)
      have "45 \<notin> set (cs ! i')" "45 \<notin> set (cs ! i)"
        using nd q'(1,2) ij by simp_all
      from relationship_key_inj[OF this] k q'(3) show ?thesis by simp
    qed
    show ?thesis
    proof (cases "0 < co_occurrence U full_text (cs ! i) (cs ! j)")
      case True
      have "map_of m (relationship_key (fst (cs ! i, cs ! j)) (snd (cs ! i, cs ! j)))
          = Some \<lparr>rel_strength = min 10 (co_occurrence U full_text (fst (cs ! i, cs ! j))
                                             (snd (cs ! i, cs ! j))),
                   rel_type = ascii ''connected''\<rparr>"
        unfolding m_def build_relationship_matrix_fold
        by (rule fold_update_complete[OF mem]) (use True uniq in auto)
      with True show ?thesis by (simp add: relationship_key_def ascii_hyphen)
    next
      case False
      have "map_of m (cs ! i @ ascii ''-'' @ cs ! j) = None"
      proof (rule ccontr)
        assume "map_of m (cs ! i @ ascii ''-'' @ cs ! j) \<noteq> None"
        then obtain r where "map_of m (cs ! i @ ascii ''-'' @ cs ! j) = Some r" by auto
        then have "(cs ! i @ ascii ''-'' @ cs ! j, r) \<in> set m" by (rule map_of_SomeD)
        from build_relationship_matrix_entry[OF this[unfolded m_def]]
        obtain a b where ab: "(a, b) \<in> set (character_pairs cs)"
          "cs ! i @ ascii ''-'' @ cs ! j = relationship_key a b" "0 < co_occurrence U full_text a b"
          by blast
        from uniq[OF ab(1)] ab(2) have "(a, b) = (cs ! i, cs ! j)"
          by (simp add: relationship_key_def ascii_hyphen)
        with ab(3) False show False by simp
      qed
      with False show ?thesis by simp
    qed
  qed
  show ?thesis
    unfolding relationship_matrix_of_development cs_def[symmetric] m_def[symmetric]
    using dm sound complete by blast
qed

theorem relationship_matrix_invariant_witness:
  "extract_character_names ascii_db (ascii ''Dawn. Ann, Ann, Ann ran to Bob, Bob, Bob. Dusk.'') = [ascii ''Ann'', ascii ''Bob'']
   \<and> co_occurrence ascii_db (ascii ''Dawn. Ann, Ann, Ann ran to Bob, Bob, Bob. Dusk.'') (ascii ''Ann'') (ascii ''Bob'') = 1
   \<and> map_of (relationship_matrix
        (analyze_character_development ascii_db [] (ascii ''Dawn. Ann, Ann, Ann ran to Bob, Bob, Bob. Dusk.'')))
        (ascii ''Ann-Bob'')
      = Some \<lparr>rel_strength = 1, rel_type = ascii ''connected''\<rparr>"
proof -
  have n: "extract_character_names ascii_db (ascii ''Dawn. Ann, Ann, Ann ran to Bob, Bob, Bob. Dusk.'')
     = [ascii ''Ann'', ascii ''Bob'']"
    by code_simp
  have c: "co_occurrence ascii_db (ascii ''Dawn. Ann, Ann, Ann ran to Bob, Bob, Bob. Dusk.'') (ascii ''Ann'') (ascii ''Bob'') = 1"
    by code_simp
  from relationship_matrix_invariant[of ascii_db "[]"
      "ascii ''Dawn. Ann, Ann, Ann ran to Bob, Bob, Bob. Dusk.''"]
  have "\<forall>i j. i < 5 \<and> i < j \<and> j < 6 \<and> j < length [ascii ''Ann'', ascii ''Bob'']
        \<longrightarrow> map_of (relationship_matrix (analyze_character_development ascii_db []
                (ascii ''Dawn. Ann, Ann, Ann ran to Bob, Bob, Bob. Dusk.'')))
              ([ascii ''Ann'', ascii ''Bob''] ! i @ ascii ''-'' @ [ascii ''Ann'', ascii ''Bob''] ! j)
            = (if 0 < co_occurrence ascii_db (ascii ''Dawn. Ann, Ann, Ann ran to Bob, Bob, Bob. Dusk.'')
                       ([ascii ''Ann'', ascii ''Bob''] ! i) ([ascii ''Ann'', ascii ''Bob''] ! j)
               then Some \<lparr>rel_strength =
                              min 10 (co_occurrence ascii_db
                                        (ascii ''Dawn. Ann, Ann, Ann ran to Bob, Bob, Bob. Dusk.'')
                                        ([ascii ''Ann'', ascii ''Bob''] ! i) ([ascii ''Ann'', ascii ''Bob''] ! j)),
                          rel_type = ascii ''connected''\<rparr>
               else None)"
    unfolding n by blast
  from this[rule_format, of 0 1] have
    "map_of (relationship_matrix (analyze_character_development ascii_db []
                (ascii ''Dawn. Ann, Ann, Ann ran to Bob, Bob, Bob. Dusk.'')))
       (ascii ''Ann'' @ ascii ''-'' @ ascii ''Bob'')
       = Some \<lparr>rel_strength = 1, rel_type = ascii ''connected''\<rparr>"
    by (simp add: c)
  moreover have "ascii ''Ann'' @ ascii ''-'' @ ascii ''Bob'' = ascii ''Ann-Bob''"
    by (simp add: ascii_def)
  ultimately have
    "map_of (relationship_matrix (analyze_character_development ascii_db []
                (ascii ''Dawn. Ann, Ann, Ann ran to Bob, Bob, Bob. Dusk.''))) (ascii ''Ann-Bob'')
       = Some \<lparr>rel_strength = 1, rel_type = ascii ''connected''\<rparr>"
    by simp
  with n c show ?thesis by blast
qed

subsection \<open>The theme and pacing analyses return\<close>

lemma round_float_nonneg:
  assumes "0 \<le> p" "0 < d"
  shows "0 \<le> fst (round_float p d) \<and> 0 < snd (round_float p d)"
proof (cases "p = 0")
  case True
  then show ?thesis by (simp add: round_float_def)
next
  case False
  with assms(1) have p: "0 < p" by simp
  have a: "0 \<le> div_half_even p (d * 2 ^ n)" for n
    using p assms(2) by (intro div_half_even_nonneg) auto
  have b: "0 \<le> div_half_even (p * 2 ^ n) d" for n
    using p assms(2) by (intro div_half_even_nonneg) auto
  show ?thesis
    using p by (simp add: round_float_def Let_def a b)
qed

lemma py_int_nonneg:
  assumes "0 \<le> fst x" "0 < snd x"
  shows "0 \<le> py_int x"
proof -
  have "0 \<le> \<bar>fst x\<bar> div snd x" using assms(2) by (simp add: pos_imp_zdiv_nonneg_iff)
  moreover have "0 \<le> sgn (fst x)" using assms(1) by (simp add: sgn_if)
  ultimately show ?thesis by (simp add: py_int_def)
qed

lemma py_truediv_pos:
  "0 < b \<Longrightarrow> py_truediv a b = Inr (round_float a b)"
  by (simp add: py_truediv_def)

lemma consistency_of_range:
  assumes "0 \<le> s"
  shows "\<exists>c. consistency_of s w = Inr c \<and> 0 \<le> c \<and> c \<le> 100
           \<and> c = min 100 (py_int (float_mul (round_float s (max 1 w)) 1000))"
proof -
  have b: "0 < max 1 w" by simp
  define q where "q = round_float s (max 1 w)"
  have q: "0 \<le> fst q" "0 < snd q"
    using round_float_nonneg[OF assms b] by (simp_all add: q_def)
  then have "0 \<le> fst q * 1000" by simp
  from round_float_nonneg[OF this q(2)]
  have "0 \<le> py_int (float_mul q 1000)"
    unfolding float_mul_def by (intro py_int_nonneg) simp_all
  then show ?thesis
    unfolding consistency_of_def py_truediv_pos[OF b] q_def[symmetric] by simp
qed

lemma count_keywords_nonneg: "0 \<le> count_keywords text keywords"
  unfolding count_keywords_def by (intro sum_list_nonneg) auto

lemma theme_scores_keys: "map fst (theme_scores U full_text) = map fst theme_keywords"
  by (simp add: theme_scores_def split_def)

lemma theme_scores_nonneg: "(t, s) \<in> set (theme_scores U full_text) \<Longrightarrow> 0 \<le> s"
  by (auto simp: theme_scores_def count_keywords_nonneg)

lemma theme_keywords_keys:
  "map fst theme_keywords
     = [ascii ''love'', ascii ''betrayal'', ascii ''redemption'', ascii ''power'', ascii ''identity'', ascii ''freedom'', ascii ''justice'']"
  by (simp add: theme_keywords_def)

lemma max_key_in_keys:
  assumes "d \<noteq> []"
  shows "\<exists>k. max_key d = Inr k \<and> k \<in> fst ` set d"
proof -
  from assms obtain b ps where d: "d = b # ps" by (cases d) auto
  from max_key_from_first_max[of b ps] obtain xs y ys where
    "b # ps = xs @ y # ys" "max_key_from b ps = fst y" by blast
  then have "max_key_from b ps \<in> fst ` set (b # ps)"
    by (metis imageI in_set_conv_decomp)
  then show ?thesis by (simp add: max_key_def d)
qed

lemma dict_get_in_keys:
  assumes "k \<in> fst ` set d"
  shows "\<exists>v. dict_get d k = Inr v \<and> (k, v) \<in> set d"
proof -
  from assms have "map_of d k \<noteq> None" by (simp add: map_of_eq_None_iff)
  then obtain v where v: "map_of d k = Some v" by auto
  then have "(k, v) \<in> set d" by (rule map_of_SomeD)
  with v show ?thesis by (simp add: dict_get_def)
qed

text \<open>The dominant theme is found, with a score in range, and its name is the sentinel
  when and only when no theme has a positive score.\<close>

lemma dominant_theme_total:
  "\<exists>core score. dominant_theme U full_text = Inr (core, score) \<and> 0 \<le> score \<and> score \<le> 100
     \<and> (core = ascii ''No clear theme'' \<or> core \<in> fst ` set theme_keywords)"
proof -
  define sc where "sc = theme_scores U full_text"
  have ne: "sc \<noteq> []" by (simp add: sc_def theme_scores_def theme_keywords_def)
  then have ne': "map snd sc \<noteq> []" by simp
  from py_max_in_set[OF ne'] obtain m where m: "py_max (map snd sc) = Inr m" by blast
  have h: "has_core_theme sc = Inr (0 < m)"
    using ne m by (simp add: has_core_theme_def)
  show ?thesis
  proof (cases "0 < m")
    case False
    then show ?thesis
      unfolding dominant_theme_def sc_def[symmetric] h by simp
  next
    case True
    from max_key_in_keys[OF ne] obtain core where
      c: "max_key sc = Inr core" "core \<in> fst ` set sc" by blast
    from dict_get_in_keys[OF c(2)] obtain s where
      s: "dict_get sc core = Inr s" "(core, s) \<in> set sc" by blast
    have "0 \<le> s" using s(2) theme_scores_nonneg by (simp add: sc_def)
    from consistency_of_range[OF this] obtain v where
      v: "consistency_of s (int (length (split_ws full_text))) = Inr v" "0 \<le> v" "v \<le> 100"
      by blast
    have "core \<in> fst ` set theme_keywords"
      using c(2) theme_scores_keys[of U full_text] by (metis sc_def set_map)
    then show ?thesis
      unfolding dominant_theme_def sc_def[symmetric] h using True c(1) s(1) v by simp
  qed
qed

lemma theme_mentions_of_total:
  assumes "core = ascii ''No clear theme'' \<or> core \<in> fst ` set theme_keywords"
    and "sorted_nodes ns = Inr scenes"
  shows "\<exists>ms. theme_mentions_of U core ns = Inr ms"
proof (cases "core = ascii ''No clear theme''")
  case True
  then show ?thesis by (simp add: theme_mentions_of_def)
next
  case False
  with assms(1) have "core \<in> fst ` set theme_keywords" by simp
  from dict_get_in_keys[OF this] obtain kws where k: "dict_get theme_keywords core = Inr kws"
    by blast
  have "map_err (\<lambda>(i, node).
                  bind_err (dict_get theme_keywords core) (\<lambda>keywords.
                    Inr \<lparr>tm_scene = int i + 1, tm_title = title node,
                         tm_mentions = count_keywords (clean_lower U node) keywords\<rparr>))
                (enumerate 0 scenes)
      = Inr (map (\<lambda>(i, node). \<lparr>tm_scene = int i + 1, tm_title = title node,
                         tm_mentions = count_keywords (clean_lower U node) kws\<rparr>)
               (enumerate 0 scenes))"
    by (rule map_err_total) (auto simp: k)
  then show ?thesis using False by (simp add: theme_mentions_of_def assms(2))
qed

lemma analyze_theme_consistency_total:
  assumes "sorted_nodes ns = Inr scenes"
  shows "\<exists>tc core. analyze_theme_consistency U ns full_text = Inr tc
     \<and> dominant_theme U full_text = Inr (core, consistency_score tc)
     \<and> core_theme tc = title_case U core
     \<and> 0 \<le> consistency_score tc \<and> consistency_score tc \<le> 100"
proof -
  from dominant_theme_total[of U full_text] obtain core score where
    d: "dominant_theme U full_text = Inr (core, score)" "0 \<le> score" "score \<le> 100"
    "core = ascii ''No clear theme'' \<or> core \<in> fst ` set theme_keywords" by blast
  from theme_mentions_of_total[OF d(4) assms] obtain ms where
    m: "theme_mentions_of U core ns = Inr ms" by blast
  show ?thesis
    unfolding analyze_theme_consistency_def d(1) using m d(2,3)
    by (simp add: new_ThemeConsistency_def)
qed

lemma pacing_score_of_range:
  "10 \<le> pacing_score_of a d \<and> pacing_score_of a d \<le> 100"
  by (simp add: pacing_score_of_def)

lemma ratio_string_total:
  assumes "0 \<le> a" "0 \<le> d" "0 \<le> c"
  shows "\<exists>r. ratio_string a d c = Inr r"
proof (cases "0 < a + d + c")
  case True
  then show ?thesis
    by (simp add: ratio_string_def Let_def ratio_of_def py_truediv_pos)
next
  case False
  then show ?thesis by (simp add: ratio_string_def Let_def)
qed

lemma analyze_pacing_total:
  assumes "sorted_nodes ns = Inr scenes"
  shows "\<exists>pa. analyze_pacing U ns full_text = Inr pa
     \<and> 10 \<le> pacing_score pa \<and> pacing_score pa \<le> 100"
proof -
  have "0 \<le> action_count_of U full_text" "0 \<le> description_count_of U full_text"
    by (simp_all add: action_count_of_def description_count_of_def count_keywords_nonneg)
  moreover have "0 \<le> dialogue_count_of full_text" by (simp add: dialogue_count_of_def)
  ultimately obtain r where
    r: "ratio_string (action_count_of U full_text) (dialogue_count_of full_text)
          (description_count_of U full_text) = Inr r"
    using ratio_string_total by blast
  have p: "10 \<le> pacing_score_of (action_count_of U full_text) (dialogue_count_of full_text)"
    "pacing_score_of (action_count_of U full_text) (dialogue_count_of full_text) \<le> 100"
    using pacing_score_of_range by simp_all
  show ?thesis
    unfolding analyze_pacing_def r slow_sections_of_def assms using p
    by (simp add: new_PacingAnalysis_def)
qed

lemma analyze_character_arc_range:
  "0 \<le> analyze_character_arc U character text \<and> analyze_character_arc U character text \<le> 10"
  by (simp add: analyze_character_arc_def)

subsection \<open>The analysis returns, with every score in its range\<close>

lemma extract_story_text_total:
  "sorted_nodes ns = Inr scenes \<Longrightarrow> \<exists>ft. extract_story_text ns = Inr ft"
  by (simp add: extract_story_text_def)

lemma analyze_story_TypeError:
  "\<not> timestamps_comparable (nodes request) \<Longrightarrow> analyze_story U now request = Inl TypeError"
  by (simp add: analyze_story_def extract_story_text_def sorted_nodes_TypeError)

lemma analyze_story_components:
  assumes "extract_story_text (nodes request) = Inr ft"
    and "analyze_story U now request = Inr p"
  shows "analyze_emotional_arc U (nodes request) ft = Inr (emotional_arc p)"
    and "character_development p = analyze_character_development U (nodes request) ft"
    and "analyze_theme_consistency U (nodes request) ft = Inr (theme_consistency p)"
    and "analyze_pacing U (nodes request) ft = Inr (pacing_analysis p)"
    and "comparative_insights p = generate_comparative_insights U (nodes request) ft"
    and "analysis_timestamp p = now"
  using assms(2) unfolding analyze_story_def assms(1)
  by (auto simp: Let_def bind_err_def split: sum.splits)

lemma analyze_story_total:
  assumes "timestamps_comparable (nodes request)"
  shows "\<exists>p ft scenes. analyze_story U now request = Inr p
           \<and> extract_story_text (nodes request) = Inr ft
           \<and> sorted_nodes (nodes request) = Inr scenes"
proof -
  from sorted_nodes_Inr[OF assms] obtain scenes where
    s: "sorted_nodes (nodes request) = Inr scenes" by blast
  from extract_story_text_total[OF s] obtain ft where
    f: "extract_story_text (nodes request) = Inr ft" by blast
  obtain arc where a: "analyze_emotional_arc U (nodes request) ft = Inr arc"
    using analyze_emotional_arc_total[OF s] by blast
  obtain tc where t: "analyze_theme_consistency U (nodes request) ft = Inr tc"
    using analyze_theme_consistency_total[OF s] by blast
  obtain pa where p: "analyze_pacing U (nodes request) ft = Inr pa"
    using analyze_pacing_total[OF s] by blast
  show ?thesis
    by (simp add: analyze_story_def Let_def f a t p s)
qed

text \<open>
  Claim C3. A request whose time stamps cannot be compared (some offset-naive, some
  offset-aware) has no profile: sorting its scenes raises \<^verbatim>\<open>TypeError\<close>. For every other
  request, and every instant, the analysis returns a profile, and in it the overall tension
  score, every per-scene tension score and the consistency score lie in \<open>[0, 100]\<close>, the arc
  strength of every character arc and the strength of every relationship edge lie in
  \<open>[0, 10]\<close>, and the pacing score lies in \<open>[10, 100]\<close>. So every profile that the
  analysis returns has its scores in these ranges.
\<close>

theorem range_invariants:
  "if timestamps_comparable (nodes request)
   then \<exists>p. analyze_story U now request = Inr p
     \<and> 0 \<le> tension_score (emotional_arc p) \<and> tension_score (emotional_arc p) \<le> 100
     \<and> (\<forall>pt\<in>set (emotional_points (emotional_arc p)).
           0 \<le> ep_tension pt \<and> ep_tension pt \<le> 100)
     \<and> 0 \<le> consistency_score (theme_consistency p)
     \<and> consistency_score (theme_consistency p) \<le> 100
     \<and> (\<forall>arc\<in>set (character_arcs (character_development p)).
           0 \<le> ca_arc_strength arc \<and> ca_arc_strength arc \<le> 10)
     \<and> (\<forall>edge\<in>set (relationship_matrix (character_development p)).
           0 \<le> rel_strength (snd edge) \<and> rel_strength (snd edge) \<le> 10)
     \<and> 10 \<le> pacing_score (pacing_analysis p) \<and> pacing_score (pacing_analysis p) \<le> 100
   else analyze_story U now request = Inl TypeError"
proof (cases "timestamps_comparable (nodes request)")
  case False
  then show ?thesis by (simp add: analyze_story_TypeError)
next
  case True
  from analyze_story_total[OF True] obtain p ft scenes where
    p: "analyze_story U now request = Inr p"
    and f: "extract_story_text (nodes request) = Inr ft"
    and s: "sorted_nodes (nodes request) = Inr scenes" by blast
  note c = analyze_story_components[OF f p]
  from analyze_emotional_arc_total[OF s, of U ft] c(1)
  have arc: "0 \<le> tension_score (emotional_arc p)" "tension_score (emotional_arc p) \<le> 100"
    and pts: "emotional_points (emotional_arc p) =
         map (\<lambda>(i, node). \<lparr>ep_scene = int i + 1, ep_title = title node,
                ep_tension = scene_tension (clean_lower U node),
                ep_dominant_emotion = projr (detect_dominant_emotion (clean_lower U node))\<rparr>)
           (enumerate 0 scenes)"
    by auto
  have points: "\<forall>pt\<in>set (emotional_points (emotional_arc p)).
           0 \<le> ep_tension pt \<and> ep_tension pt \<le> 100"
    unfolding pts using scene_tension_range by auto
  from analyze_theme_consistency_total[OF s, of U ft] c(3)
  have theme: "0 \<le> consistency_score (theme_consistency p)"
    "consistency_score (theme_consistency p) \<le> 100"
    by auto
  from analyze_pacing_total[OF s, of U ft] c(4)
  have pacing: "10 \<le> pacing_score (pacing_analysis p)" "pacing_score (pacing_analysis p) \<le> 100"
    by auto
  have arcs: "\<forall>arc\<in>set (character_arcs (character_development p)).
           0 \<le> ca_arc_strength arc \<and> ca_arc_strength arc \<le> 10"
    unfolding c(2) using analyze_character_arc_range
    by (auto simp: analyze_character_development_def Let_def)
  have edges: "\<forall>edge\<in>set (relationship_matrix (character_development p)).
           0 \<le> rel_strength (snd edge) \<and> rel_strength (snd edge) \<le> 10"
  proof
    fix edge assume "edge \<in> set (relationship_matrix (character_development p))"
    then have "(fst edge, snd edge)
        \<in> set (build_relationship_matrix U (extract_character_names U ft) ft)"
      unfolding c(2) relationship_matrix_of_development by simp
    from build_relationship_matrix_entry[OF this]
    show "0 \<le> rel_strength (snd edge) \<and> rel_strength (snd edge) \<le> 10" by auto
  qed
  from p arc points theme arcs edges pacing
  have "\<exists>p. analyze_story U now request = Inr p
     \<and> 0 \<le> tension_score (emotional_arc p) \<and> tension_score (emotional_arc p) \<le> 100
     \<and> (\<forall>pt\<in>set (emotional_points (emotional_arc p)).
           0 \<le> ep_tension pt \<and> ep_tension pt \<le> 100)
     \<and> 0 \<le> consistency_score (theme_consistency p)
     \<and> consistency_score (theme_consistency p) \<le> 100
     \<and> (\<forall>arc\<in>set (character_arcs (character_development p)).
           0 \<le> ca_arc_strength arc \<and> ca_arc_strength arc \<le> 10)
     \<and> (\<forall>edge\<in>set (relationship_matrix (character_development p)).
           0 \<le> rel_strength (snd edge) \<and> rel_strength (snd edge) \<le> 10)
     \<and> 10 \<le> pacing_score (pacing_analysis p) \<and> pacing_score (pacing_analysis p) \<le> 100"
    by blast
  with True show ?thesis by simp
qed

theorem range_invariants_witness:
  "(\<exists>p. analyze_story ascii_db 0
          \<lparr>nodes = [\<lparr>node_id = ascii ''n1'', content = ascii ''<p>Dawn. Ann, Ann, Ann ran</p>'',
                       title = ascii ''Quay'', status = WRITTEN, created_at = Naive 10\<rparr>,
                    \<lparr>node_id = ascii ''n2'', content = ascii ''<p>to Bob, Bob, Bob. Dusk.</p>'',
                       title = ascii ''Pier'', status = WRITTEN, created_at = Naive 20\<rparr>],
           project_info = \<lparr>project_id = ascii ''p1'', project_title = ascii ''Draft'',
                             genre = ascii ''novel''\<rparr>\<rparr>
        = Inr p
     \<and> length (emotional_points (emotional_arc p)) = 2
     \<and> list_all (\<lambda>pt. 0 \<le> ep_tension pt \<and> ep_tension pt \<le> 100)
          (emotional_points (emotional_arc p))
     \<and> 0 \<le> tension_score (emotional_arc p) \<and> tension_score (emotional_arc p) \<le> 100
     \<and> 0 \<le> consistency_score (theme_consistency p)
     \<and> consistency_score (theme_consistency p) \<le> 100
     \<and> map ca_name (character_arcs (character_development p)) = [ascii ''Ann'', ascii ''Bob'']
     \<and> list_all (\<lambda>arc. 0 \<le> ca_arc_strength arc \<and> ca_arc_strength arc \<le> 10)
          (character_arcs (character_development p))
     \<and> map fst (relationship_matrix (character_development p)) = [ascii ''Ann-Bob'']
     \<and> list_all (\<lambda>edge. 0 \<le> rel_strength (snd edge) \<and> rel_strength (snd edge) \<le> 10)
          (relationship_matrix (character_development p))
     \<and> 10 \<le> pacing_score (pacing_analysis p) \<and> pacing_score (pacing_analysis p) \<le> 100)
   \<and> analyze_story ascii_db 0
          \<lparr>nodes = [\<lparr>node_id = ascii ''n1'', content = ascii ''<p>Dawn. Ann, Ann, Ann ran</p>'',
                       title = ascii ''Quay'', status = WRITTEN, created_at = Naive 10\<rparr>,
                    \<lparr>node_id = ascii ''n2'', content = ascii ''<p>to Bob, Bob, Bob. Dusk.</p>'',
                       title = ascii ''Pier'', status = WRITTEN, created_at = Aware 20\<rparr>],
           project_info = \<lparr>project_id = ascii ''p1'', project_title = ascii ''Draft'',
                             genre = ascii ''novel''\<rparr>\<rparr>
        = Inl TypeError"
proof -
  define ns where "ns = [\<lparr>node_id = ascii ''n1'', content = ascii ''<p>Dawn. Ann, Ann, Ann ran</p>'',
                       title = ascii ''Quay'', status = WRITTEN, created_at = Naive 10\<rparr>,
                    \<lparr>node_id = ascii ''n2'', content = ascii ''<p>to Bob, Bob, Bob. Dusk.</p>'',
                       title = ascii ''Pier'', status = WRITTEN, created_at = Naive 20\<rparr>]"
  define ms where "ms = [\<lparr>node_id = ascii ''n1'', content = ascii ''<p>Dawn. Ann, Ann, Ann ran</p>'',
                       title = ascii ''Quay'', status = WRITTEN, created_at = Naive 10\<rparr>,
                    \<lparr>node_id = ascii ''n2'', content = ascii ''<p>to Bob, Bob, Bob. Dusk.</p>'',
                       title = ascii ''Pier'', status = WRITTEN, created_at = Aware 20\<rparr>]"
  define P where "P = \<lparr>project_id = ascii ''p1'', project_title = ascii ''Draft'',
                             genre = ascii ''novel''\<rparr>"
  define r where "r = \<lparr>nodes = ns, project_info = P\<rparr>"
  define q where "q = \<lparr>nodes = ms, project_info = P\<rparr>"
  have nr: "nodes r = ns" and nq: "nodes q = ms" by (simp_all add: r_def q_def)
  have cr: "timestamps_comparable ns" unfolding ns_def by code_simp
  have cq: "\<not> timestamps_comparable ms" unfolding ms_def by code_simp
  have s: "sorted_nodes ns = Inr ns" unfolding ns_def by code_simp
  have t: "extract_story_text ns = Inr (ascii ''Dawn. Ann, Ann, Ann ran to Bob, Bob, Bob. Dusk.'')"
    unfolding ns_def by code_simp
  have n: "extract_character_names ascii_db (ascii ''Dawn. Ann, Ann, Ann ran to Bob, Bob, Bob. Dusk.'')
     = [ascii ''Ann'', ascii ''Bob'']"
    by code_simp
  have m: "map fst (build_relationship_matrix ascii_db [ascii ''Ann'', ascii ''Bob'']
       (ascii ''Dawn. Ann, Ann, Ann ran to Bob, Bob, Bob. Dusk.'')) = [ascii ''Ann-Bob'']"
    by code_simp
  from range_invariants[of q ascii_db 0] cq
  have e: "analyze_story ascii_db 0 q = Inl TypeError"
    by (simp add: nq)
  from range_invariants[of r ascii_db 0] cr obtain p where p: "analyze_story ascii_db 0 r = Inr p"
    and rng: "0 \<le> tension_score (emotional_arc p)" "tension_score (emotional_arc p) \<le> 100"
     "\<forall>pt\<in>set (emotional_points (emotional_arc p)). 0 \<le> ep_tension pt \<and> ep_tension pt \<le> 100"
     "0 \<le> consistency_score (theme_consistency p)"
     "consistency_score (theme_consistency p) \<le> 100"
     "\<forall>arc\<in>set (character_arcs (character_development p)).
           0 \<le> ca_arc_strength arc \<and> ca_arc_strength arc \<le> 10"
     "\<forall>edge\<in>set (relationship_matrix (character_development p)).
           0 \<le> rel_strength (snd edge) \<and> rel_strength (snd edge) \<le> 10"
     "10 \<le> pacing_score (pacing_analysis p)" "pacing_score (pacing_analysis p) \<le> 100"
    unfolding nr by auto
  note c = analyze_story_components[of r, unfolded nr, OF t p]
  from analyze_emotional_arc_total[OF s, of ascii_db
      "ascii ''Dawn. Ann, Ann, Ann ran to Bob, Bob, Bob. Dusk.''"] c(1)
  have len: "length (emotional_points (emotional_arc p)) = 2"
    by (auto simp: ns_def)
  have names: "map ca_name (character_arcs (character_development p)) = [ascii ''Ann'', ascii ''Bob'']"
    unfolding c(2) by (simp add: analyze_character_development_def Let_def n comp_def)
  have keys: "map fst (relationship_matrix (character_development p)) = [ascii ''Ann-Bob'']"
    unfolding c(2) relationship_matrix_of_development n by (rule m)
  from rng(3,6,7) have l: "list_all (\<lambda>pt. 0 \<le> ep_tension pt \<and> ep_tension pt \<le> 100)
          (emotional_points (emotional_arc p))"
      "list_all (\<lambda>arc. 0 \<le> ca_arc_strength arc \<and> ca_arc_strength arc \<le> 10)
          (character_arcs (character_development p))"
      "list_all (\<lambda>edge. 0 \<le> rel_strength (snd edge) \<and> rel_strength (snd edge) \<le> 10)
          (relationship_matrix (character_development p))"
    by (simp_all add: list_all_iff)
  from p len l rng(1,2,4,5,8,9) names keys
  have "analyze_story ascii_db 0 r = Inr p
     \<and> length (emotional_points (emotional_arc p)) = 2
     \<and> list_all (\<lambda>pt. 0 \<le> ep_tension pt \<and> ep_tension pt \<le> 100)
          (emotional_points (emotional_arc p))
     \<and> 0 \<le> tension_score (emotional_arc p) \<and> tension_score (emotional_arc p) \<le> 100
     \<and> 0 \<le> consistency_score (theme_consistency p)
     \<and> consistency_score (theme_consistency p) \<le> 100
     \<and> map ca_name (character_arcs (character_development p)) = [ascii ''Ann'', ascii ''Bob'']
     \<and> list_all (\<lambda>arc. 0 \<le> ca_arc_strength arc \<and> ca_arc_strength arc \<le> 10)
          (character_arcs (character_development p))
     \<and> map fst (relationship_matrix (character_development p)) = [ascii ''Ann-Bob'']
     \<and> list_all (\<lambda>edge. 0 \<le> rel_strength (snd edge) \<and> rel_strength (snd edge) \<le> 10)
          (relationship_matrix (character_development p))
     \<and> 10 \<le> pacing_score (pacing_analysis p) \<and> pacing_score (pacing_analysis p) \<le> 100"
    by blast
  then have "\<exists>p. analyze_story ascii_db 0 r = Inr p
     \<and> length (emotional_points (emotional_arc p)) = 2
     \<and> list_all (\<lambda>pt. 0 \<le> ep_tension pt \<and> ep_tension pt \<le> 100)
          (emotional_points (emotional_arc p))
     \<and> 0 \<le> tension_score (emotional_arc p) \<and> tension_score (emotional_arc p) \<le> 100
     \<and> 0 \<le> consistency_score (theme_consistency p)
     \<and> consistency_score (theme_consistency p) \<le> 100
     \<and> map ca_name (character_arcs (character_development p)) = [ascii ''Ann'', ascii ''Bob'']
     \<and> list_all (\<lambda>arc. 0 \<le> ca_arc_strength arc \<and> ca_arc_strength arc \<le> 10)
          (character_arcs (character_development p))
     \<and> map fst (relationship_matrix (character_development p)) = [ascii ''Ann-Bob'']
     \<and> list_all (\<lambda>edge. 0 \<le> rel_strength (snd edge) \<and> rel_strength (snd edge) \<le> 10)
          (relationship_matrix (character_development p))
     \<and> 10 \<le> pacing_score (pacing_analysis p) \<and> pacing_score (pacing_analysis p) \<le> 100"
    by (rule exI)
  with e show ?thesis unfolding r_def q_def ns_def ms_def P_def by (intro conjI)
qed

subsection \<open>The arithmetic of the consistency score\<close>

lemma py_max_Max: "xs \<noteq> [] \<Longrightarrow> py_max xs = Inr (Max (set xs))"
proof (cases xs)
  case Nil
  then show "xs \<noteq> [] \<Longrightarrow> ?thesis" by simp
next
  case (Cons y ys)
  have "fold max ys y = Max (set (y # ys))" by (rule Max.set_eq_fold[symmetric])
  then show ?thesis using Cons by (simp add: py_max_def)
qed

lemma max_key_maximal:
  assumes "d \<noteq> []"
  shows "\<exists>k v. max_key d = Inr k \<and> (k, v) \<in> set d \<and> v = Max (snd ` set d)"
proof -
  from assms obtain b ps where d: "d = b # ps" by (cases d) auto
  from max_key_from_first_max[of b ps] obtain xs y ys where
    y: "b # ps = xs @ y # ys" "max_key_from b ps = fst y"
    "\<forall>x\<in>set xs. snd x < snd y" "\<forall>z\<in>set ys. snd z \<le> snd y" by blast
  have m: "max_key d = Inr (fst y)" by (simp add: max_key_def d y(2))
  have i: "(fst y, snd y) \<in> set d" by (simp add: d y(1))
  have "\<forall>z\<in>set d. snd z \<le> snd y"
    using y(3,4) unfolding d y(1) by (auto simp: less_imp_le)
  then have "Max (snd ` set d) = snd y"
    using i by (intro Max_eqI) (auto simp: rev_image_eqI)
  with m i show ?thesis by metis
qed

lemma theme_scores_distinct: "distinct (map fst (theme_scores U full_text))"
  unfolding theme_scores_keys theme_keywords_keys by (simp add: ascii_def)

text \<open>
  Claim C7, as the source has it. Whenever a core theme exists, that is, the maximum theme
  score is positive, the core theme is a theme with that maximum score \<open>s\<close>, and the
  consistency score is \<^verbatim>\<open>min(100, int(s / max(1, total_words) * 1000))\<close>: the quotient
  and the product are float operations, and \<^verbatim>\<open>int\<close> truncates the product, it does not
  round it to the nearest integer. The number of words is the number of white-space tokens
  of the full text.
\<close>

theorem consistency_score_truncates:
  assumes "0 < Max (snd ` set (theme_scores U full_text))"
  shows "\<exists>core s. dominant_theme U full_text =
             Inr (core, min 100 (py_int (float_mul
                    (round_float s (max 1 (int (length (split_ws full_text))))) 1000)))
           \<and> map_of (theme_scores U full_text) core = Some s
           \<and> s = Max (snd ` set (theme_scores U full_text))"
proof -
  define sc where "sc = theme_scores U full_text"
  have ne: "sc \<noteq> []" by (simp add: sc_def theme_scores_def theme_keywords_def)
  then have "py_max (map snd sc) = Inr (Max (snd ` set sc))"
    using py_max_Max[of "map snd sc"] by simp
  then have h: "has_core_theme sc = Inr True"
    using ne assms by (simp add: has_core_theme_def sc_def)
  from max_key_maximal[OF ne] obtain core s where
    c: "max_key sc = Inr core" "(core, s) \<in> set sc" "s = Max (snd ` set sc)" by blast
  have m: "map_of sc core = Some s"
    using c(2) theme_scores_distinct[of U full_text] by (simp add: sc_def)
  then have g: "dict_get sc core = Inr s" by (simp add: dict_get_def)
  have "0 \<le> s" using c(3) assms by (simp add: sc_def)
  from consistency_of_range[OF this, of "int (length (split_ws full_text))"]
  have v: "consistency_of s (int (length (split_ws full_text)))
      = Inr (min 100 (py_int (float_mul
                    (round_float s (max 1 (int (length (split_ws full_text))))) 1000)))"
    by auto
  have "dominant_theme U full_text =
      Inr (core, min 100 (py_int (float_mul
                    (round_float s (max 1 (int (length (split_ws full_text))))) 1000)))"
    unfolding dominant_theme_def sc_def[symmetric] by (simp add: h c(1) g v)
  with m c(3) show ?thesis unfolding sc_def by blast
qed

theorem consistency_score_truncates_witness:
  "Max (snd ` set (theme_scores ascii_db
       (ascii ''they took control of the old town by the sea long ago today''))) = 1
   \<and> int (length (split_ws
       (ascii ''they took control of the old town by the sea long ago today''))) = 13
   \<and> min 100 (py_int (float_mul (round_float 1 13) 1000)) = 76
   \<and> dominant_theme ascii_db
       (ascii ''they took control of the old town by the sea long ago today'')
     = Inr (ascii ''power'', 76)"
proof -
  define T where "T = ascii ''they took control of the old town by the sea long ago today''"
  have sc: "theme_scores ascii_db T =
     [(ascii ''love'', 0), (ascii ''betrayal'', 0), (ascii ''redemption'', 0),
      (ascii ''power'', 1), (ascii ''identity'', 0), (ascii ''freedom'', 0),
      (ascii ''justice'', 0)]"
    unfolding T_def by code_simp
  have mx: "Max (snd ` set (theme_scores ascii_db T)) = 1"
    unfolding sc by simp
  have w: "int (length (split_ws T)) = 13"
    unfolding T_def by code_simp
  have f: "min 100 (py_int (float_mul (round_float 1 13) 1000)) = 76"
    by code_simp
  from consistency_score_truncates[of ascii_db T] obtain core where
    d: "dominant_theme ascii_db T = Inr (core, 76)"
    and m: "map_of (theme_scores ascii_db T) core = Some 1"
    unfolding mx w using f by auto
  from m have "core = ascii ''power''"
    unfolding sc by (simp add: ascii_def split: if_splits)
  with d mx w f show ?thesis unfolding T_def by simp
qed

text \<open>
  Claim C7, as stated, rounds the scaled quotient to the nearest integer. The text below has
  11 words and one occurrence of a keyword of the theme love, and no keyword of another
  theme; 1 / 11 * 1000 is 90.909..., which the formula of the claim rounds to 91, and the
  consistency score of the analysis is 90.
\<close>

theorem consistency_score_round_counterexample:
  "extract_story_text
     [\<lparr>node_id = ascii ''n1'',
       content = ascii ''<p>love came late to the old house by the sea again</p>'',
       title = ascii ''Shore'', status = WRITTEN, created_at = Naive 10\<rparr>]
     = Inr (ascii ''love came late to the old house by the sea again'')
   \<and> theme_scores ascii_db (ascii ''love came late to the old house by the sea again'')
     = [(ascii ''love'', 1), (ascii ''betrayal'', 0), (ascii ''redemption'', 0),
        (ascii ''power'', 0), (ascii ''identity'', 0), (ascii ''freedom'', 0),
        (ascii ''justice'', 0)]
   \<and> length (split_ws (ascii ''love came late to the old house by the sea again'')) = 11
   \<and> spec_consistency_score 1 11 = 91
   \<and> map_sum id consistency_score
       (analyze_theme_consistency ascii_db
          [\<lparr>node_id = ascii ''n1'',
            content = ascii ''<p>love came late to the old house by the sea again</p>'',
            title = ascii ''Shore'', status = WRITTEN, created_at = Naive 10\<rparr>]
          (ascii ''love came late to the old house by the sea again''))
     = Inr 90"
  by code_simp

end
